theory Spec2Isabelle
  imports Main "HOL-Library.AList"
begin

section \<open>JavaScript values and objects\<close>

text \<open>
  Plain data as the composer passes it around: argument values, descriptions,
  deprecation reasons, extension values.  Numbers are the integers (no claim depends on
  fractions or \<open>NaN\<close>); \<open>JRef\<close> is a reference to a host object that the
  composer never looks into (a resolve function kept on a field config, an AST node).
\<close>

datatype jsval =
    JUndefined
  | JNull
  | JBool bool
  | JNum int
  | JStr string
  | JArr "jsval list"
  | JObj "(string \<times> jsval) list"
  | JRef nat

text \<open>The truthiness test of \<open>if (x)\<close>, \<open>x || y\<close> and \<open>!!x\<close>.\<close>

fun truthy :: "jsval \<Rightarrow> bool" where
  "truthy JUndefined = False"
| "truthy JNull = False"
| "truthy (JBool b) = b"
| "truthy (JNum n) = (n \<noteq> 0)"
| "truthy (JStr s) = (s \<noteq> [])"
| "truthy (JArr xs) = True"
| "truthy (JObj kvs) = True"
| "truthy (JRef r) = True"

text \<open>\<open>a || b\<close> on values.\<close>

definition js_or :: "jsval \<Rightarrow> jsval \<Rightarrow> jsval" where
  "js_or a b = (if truthy a then a else b)"

text \<open>
  A plain object is the list of its own properties in the order in which
  \<open>Object.keys\<close> and the spread enumerate them: the keys that are array indices
  first, in ascending order, then the other keys in the order of their creation.
  \<open>Object.keys\<close> is \<open>map fst\<close> and \<open>delete o[k]\<close> is \<open>AList.delete\<close>.
\<close>

type_synonym 'v obj = "(string \<times> 'v) list"

text \<open>
  An array index is the canonical decimal form of an integer from \<open>0\<close> to
  \<open>2\<^sup>3\<^sup>2 - 2\<close>: digits only, no leading zero.
\<close>

definition isDigit :: "char \<Rightarrow> bool" where
  "isDigit c = (c \<in> set ''0123456789'')"

definition decimal :: "string \<Rightarrow> int" where
  "decimal s = foldl (\<lambda>n c. 10 * n + (of_char c - 48)) 0 s"

definition arrayIndex :: "string \<Rightarrow> int option" where
  "arrayIndex s =
     (if s \<noteq> [] \<and> list_all isDigit s \<and> (hd s \<noteq> CHR ''0'' \<or> length s = 1)
         \<and> decimal s < 4294967295
      then Some (decimal s) else None)"

text \<open>Whether an own key comes before the array index \<open>n\<close> in the enumeration.\<close>

definition beforeIndex :: "int \<Rightarrow> string \<times> 'v \<Rightarrow> bool" where
  "beforeIndex n kv = (case arrayIndex (fst kv) of Some m \<Rightarrow> m < n | None \<Rightarrow> False)"

text \<open>
  Creating or overwriting the own property \<open>k\<close> (what a spread does for each key):
  an existing key keeps its place, a new array index goes to its place among the
  indices, any other new key goes to the end.
\<close>

definition defineKey :: "string \<Rightarrow> 'v \<Rightarrow> 'v obj \<Rightarrow> 'v obj" where
  "defineKey k v ob =
     (if map_of ob k \<noteq> None then AList.update k v ob
      else case arrayIndex k of
             None \<Rightarrow> ob @ [(k, v)]
           | Some n \<Rightarrow> takeWhile (beforeIndex n) ob @ [(k, v)] @ dropWhile (beforeIndex n) ob)"

text \<open>
  The assignment \<open>o[k] = v\<close>.  When \<open>__proto__\<close> is not an own key, the
  assignment goes to the setter that \<open>Object.prototype\<close> has for it and creates no
  own property (the prototype that it sets is not part of the model).
\<close>

definition setProp :: "string \<Rightarrow> 'v \<Rightarrow> 'v obj \<Rightarrow> 'v obj" where
  "setProp k v ob =
     (if k = ''__proto__'' \<and> map_of ob k = None then ob else defineKey k v ob)"

text \<open>
  Reading \<open>o[k]\<close> follows the prototype chain: a key that is not an own property
  reads as the member of that name of \<open>Object.prototype\<close>, when there is one, and
  as \<open>undefined\<close> (\<open>None\<close>) otherwise.  The members are functions, and
  \<open>__proto__\<close> reads as \<open>Object.prototype\<close> itself, so all of them are truthy,
  as every field and argument config is: \<open>if (o[k])\<close> asks whether the read is
  not \<open>None\<close>.
\<close>

definition objectPrototype :: "string list" where
  "objectPrototype =
     [''constructor'', ''__defineGetter__'', ''__defineSetter__'', ''hasOwnProperty'',
      ''__lookupGetter__'', ''__lookupSetter__'', ''isPrototypeOf'', ''propertyIsEnumerable'',
      ''toString'', ''valueOf'', ''__proto__'', ''toLocaleString'']"

datatype 'v property = Own 'v | Inherited string

definition getProp :: "'v obj \<Rightarrow> string \<Rightarrow> 'v property option" where
  "getProp ob k =
     (case map_of ob k of
        Some v \<Rightarrow> Some (Own v)
      | None \<Rightarrow> if k \<in> set objectPrototype then Some (Inherited k) else None)"

text \<open>\<open>Object.assign(target, src)\<close> on own properties: every key of \<open>src\<close>, in order.\<close>

definition assign :: "'v obj \<Rightarrow> 'v obj \<Rightarrow> 'v obj" where
  "assign target src = foldl (\<lambda>acc kv. defineKey (fst kv) (snd kv) acc) target src"

text \<open>The object literal \<open>{ ...a, ...b }\<close>.\<close>

definition spread :: "'v obj \<Rightarrow> 'v obj \<Rightarrow> 'v obj" where
  "spread a b = assign (assign [] a) b"

text \<open>
  A list is the enumeration of an object when building the object from it gives the
  list back: its keys are distinct and in the order described above.
\<close>

definition enumerated :: "'v obj \<Rightarrow> bool" where
  "enumerated ob = (assign [] ob = ob)"

text \<open>\<open>x || {}\<close> for an optional object.\<close>

definition or_empty :: "'v obj option \<Rightarrow> 'v obj" where
  "or_empty x = (case x of None \<Rightarrow> [] | Some kvs \<Rightarrow> kvs)"

text \<open>A thrown \<open>Error\<close> with its message, and the result of a call that may throw.\<close>

datatype js_error = Error string

datatype 'a outcome = Threw js_error | Returned 'a

definition quoted :: "string \<Rightarrow> string" where
  "quoted s = [CHR 0x27] @ s @ [CHR 0x27]"

section \<open>Type composers\<close>

text \<open>
  What a field's \<open>type\<close> holds: a named type composer, a \<open>ThunkComposer\<close>
  (a deferred reference, carrying its name), or a \<open>ListComposer\<close> /
  \<open>NonNullComposer\<close> around another one (\<open>ofType\<close>).
\<close>

datatype compose_type =
    NamedTC string
  | ThunkTC string
  | ListComposer compose_type
  | NonNullComposer compose_type

text \<open>\<open>t instanceof NonNullComposer\<close> and \<open>t instanceof ListComposer\<close>.\<close>

fun isNonNullComposer :: "compose_type \<Rightarrow> bool" where
  "isNonNullComposer (NonNullComposer t) = True"
| "isNonNullComposer t = False"

fun isListComposer :: "compose_type \<Rightarrow> bool" where
  "isListComposer (ListComposer t) = True"
| "isListComposer t = False"

text \<open>
  The four type updates that the \<open>makeField...\<close> and \<open>makeFieldArg...\<close>
  methods perform on \<open>fc.type\<close> and \<open>ac.type\<close> (the same code in both).
\<close>

text \<open>\<open>if (!(fc.type instanceof NonNullComposer)) fc.type = new NonNullComposer(fc.type)\<close>\<close>

definition typeNonNull :: "compose_type \<Rightarrow> compose_type" where
  "typeNonNull t = (if \<not> isNonNullComposer t then NonNullComposer t else t)"

text \<open>\<open>if (fc.type instanceof NonNullComposer) fc.type = fc.type.ofType\<close>\<close>

fun typeNullable :: "compose_type \<Rightarrow> compose_type" where
  "typeNullable (NonNullComposer t) = t"
| "typeNullable t = t"

text \<open>\<open>if (!(fc.type instanceof ListComposer)) fc.type = new ListComposer(fc.type)\<close>\<close>

definition typePlural :: "compose_type \<Rightarrow> compose_type" where
  "typePlural t = (if \<not> isListComposer t then ListComposer t else t)"

text \<open>
  \<^verbatim>\<open>
  if (fc.type instanceof ListComposer) {
    fc.type = fc.type.ofType;
  } else if (fc.type instanceof NonNullComposer && fc.type.ofType instanceof ListComposer) {
    fc.type =
      fc.type.ofType.ofType instanceof NonNullComposer
        ? fc.type.ofType.ofType
        : new NonNullComposer(fc.type.ofType.ofType);
  }
  \<close>
\<close>

fun typeNonPlural :: "compose_type \<Rightarrow> compose_type" where
  "typeNonPlural (ListComposer t) = t"
| "typeNonPlural (NonNullComposer (ListComposer t)) =
     (if isNonNullComposer t then t else NonNullComposer t)"
| "typeNonPlural t = t"

section \<open>The object type composer\<close>

text \<open>
  \<open>ObjectTypeComposerArgumentConfig\<close> and \<open>ObjectTypeComposerFieldConfig\<close>.
  A property that is absent reads as \<open>undefined\<close>, so the value properties are
  plain \<open>jsval\<close>s; the optional objects \<open>args\<close> and \<open>extensions\<close> are
  \<open>None\<close> when undefined.  \<open>fc_rest\<close> holds every other key of the config
  (\<open>resolve\<close>, \<open>subscribe\<close>, \<open>astNode\<close>, \<open>projection\<close>, ...).
\<close>

record arg_config =
  ac_type :: compose_type
  ac_defaultValue :: jsval
  ac_description :: jsval
  ac_extensions :: "jsval obj option"

record field_config =
  fc_type :: compose_type
  fc_args :: "arg_config obj option"
  fc_deprecationReason :: jsval
  fc_description :: jsval
  fc_extensions :: "jsval obj option"
  fc_rest :: "jsval obj"

text \<open>
  The state of an \<open>ObjectTypeComposer\<close> that the field methods read and write:
  the name of \<open>_gqType\<close> and the field map \<open>_gqcFields\<close>.  In an
  \<open>otc\<close> every own property of the field map is a field config, as the type of
  \<open>_gqcFields\<close> says; the record is polymorphic for the one method,
  \<open>reorderFields\<close>, that can leave something else in the map.
\<close>

record 'f composer =
  typeName :: string
  gqcFields :: "'f obj"

type_synonym otc = "field_config composer"

text \<open>A \<open>string | string[]\<close> argument and \<open>Array.isArray(x) ? x : [x]\<close>.\<close>

datatype name_or_array = Single string | Many "string list"

fun toArray :: "name_or_array \<Rightarrow> string list" where
  "toArray (Single name) = [name]"
| "toArray (Many names) = names"

subsection \<open>Reading fields and arguments\<close>

definition getFieldNames :: "'f composer \<Rightarrow> string list" where
  "getFieldNames this = map fst (gqcFields this)"

text \<open>
  \<^verbatim>\<open>
  const field = this._gqcFields[fieldName];
  if (!field) { throw new Error(...); }
  return field;
  \<close>
  What is returned is the field config, or the member of \<open>Object.prototype\<close> that
  the field map inherits under that name.
\<close>

definition getField :: "string \<Rightarrow> otc \<Rightarrow> field_config property outcome \<times> otc" where
  "getField fieldName this =
     (case getProp (gqcFields this) fieldName of
        None \<Rightarrow>
          (Threw (Error (''Cannot get field '' @ quoted fieldName @ '' from type ''
             @ quoted (typeName this) @ ''. Field does not exist.'')), this)
      | Some field \<Rightarrow> (Returned field, this))"

text \<open>\<open>!!this._gqcFields[fieldName]\<close>\<close>

definition hasField :: "string \<Rightarrow> otc \<Rightarrow> bool" where
  "hasField fieldName this = (getProp (gqcFields this) fieldName \<noteq> None)"

text \<open>
  \<open>fc.type\<close> and \<open>fc.args\<close> of what \<open>getField\<close> returned: an inherited
  member, as the language provides it, has neither property.
\<close>

fun typeOfField :: "field_config property \<Rightarrow> compose_type option" where
  "typeOfField (Own fc) = Some (fc_type fc)"
| "typeOfField (Inherited name) = None"

fun argsOfField :: "field_config property \<Rightarrow> arg_config obj option" where
  "argsOfField (Own fc) = fc_args fc"
| "argsOfField (Inherited name) = None"

definition getFieldArgs :: "string \<Rightarrow> otc \<Rightarrow> arg_config obj outcome \<times> otc" where
  "getFieldArgs fieldName this =
     (case getField fieldName this of
        (Returned fc, this') \<Rightarrow> (Returned (or_empty (argsOfField fc)), this')
      | (Threw e, this') \<Rightarrow>
          (Threw (Error (''Cannot get args from '' @ quoted (typeName this' @ ''.'' @ fieldName)
             @ ''. Field does not exist.'')), this'))"

text \<open>\<open>!!fieldArgs[argName]\<close>, inside \<open>try { ... } catch (e) { return false; }\<close>.\<close>

definition hasFieldArg :: "string \<Rightarrow> string \<Rightarrow> otc \<Rightarrow> bool outcome \<times> otc" where
  "hasFieldArg fieldName argName this =
     (case getFieldArgs fieldName this of
        (Returned fieldArgs, this') \<Rightarrow> (Returned (getProp fieldArgs argName \<noteq> None), this')
      | (Threw e, this') \<Rightarrow> (Returned False, this'))"

definition getFieldArg :: "string \<Rightarrow> string \<Rightarrow> otc \<Rightarrow> arg_config property outcome \<times> otc" where
  "getFieldArg fieldName argName this =
     (case getFieldArgs fieldName this of
        (Threw e, this') \<Rightarrow> (Threw e, this')
      | (Returned fieldArgs, this') \<Rightarrow>
          (case getProp fieldArgs argName of
             None \<Rightarrow>
               (Threw (Error (''Cannot get '' @ quoted (typeName this' @ ''.'' @ fieldName
                  @ ''@'' @ argName) @ ''. Argument does not exist.'')), this')
           | Some arg \<Rightarrow> (Returned arg, this')))"

text \<open>\<open>this.getField(fieldName).type instanceof NonNullComposer\<close>\<close>

definition isFieldNonNull :: "string \<Rightarrow> otc \<Rightarrow> bool outcome \<times> otc" where
  "isFieldNonNull fieldName this =
     (case getField fieldName this of
        (Threw e, this') \<Rightarrow> (Threw e, this')
      | (Returned fc, this') \<Rightarrow>
          (Returned (case typeOfField fc of
                       Some t \<Rightarrow> isNonNullComposer t | None \<Rightarrow> False), this'))"

subsection \<open>Wrapping and unwrapping field types\<close>

text \<open>
  \<open>fieldNames.forEach(fieldName => { const fc = this._gqcFields[fieldName]; if (fc) ... })\<close>:
  each named field that exists has its \<open>type\<close> replaced in place; other names are
  skipped.  For a name that the field map only inherits, \<open>fc\<close> is the inherited
  member, and a write to \<open>fc.type\<close> lands on that member, outside the composer:
  the field map keeps its own properties as they are.
\<close>

definition eachFieldType :: "(compose_type \<Rightarrow> compose_type) \<Rightarrow> string list \<Rightarrow> otc \<Rightarrow> otc" where
  "eachFieldType f fieldNames this =
     this\<lparr>gqcFields :=
       foldl (\<lambda>fields fieldName.
                AList.map_entry fieldName (\<lambda>fc. fc\<lparr>fc_type := f (fc_type fc)\<rparr>) fields)
         (gqcFields this) fieldNames\<rparr>"

definition makeFieldNonNull :: "name_or_array \<Rightarrow> otc \<Rightarrow> otc" where
  "makeFieldNonNull fieldNameOrArray this =
     eachFieldType typeNonNull (toArray fieldNameOrArray) this"

definition makeFieldNullable :: "name_or_array \<Rightarrow> otc \<Rightarrow> otc" where
  "makeFieldNullable fieldNameOrArray this =
     eachFieldType typeNullable (toArray fieldNameOrArray) this"

definition makeFieldPlural :: "name_or_array \<Rightarrow> otc \<Rightarrow> otc" where
  "makeFieldPlural fieldNameOrArray this =
     eachFieldType typePlural (toArray fieldNameOrArray) this"

definition makeFieldNonPlural :: "name_or_array \<Rightarrow> otc \<Rightarrow> otc" where
  "makeFieldNonPlural fieldNameOrArray this =
     eachFieldType typeNonPlural (toArray fieldNameOrArray) this"

text \<open>
  The argument analogues start with \<open>const args = this.getField(fieldName).args\<close>,
  which throws for a missing field, and return at once when the field has no
  \<open>args\<close>.
\<close>

definition eachFieldArgType ::
  "(compose_type \<Rightarrow> compose_type) \<Rightarrow> string \<Rightarrow> string list \<Rightarrow> otc \<Rightarrow> unit outcome \<times> otc" where
  "eachFieldArgType f fieldName argNames this =
     (case getField fieldName this of
        (Threw e, this') \<Rightarrow> (Threw e, this')
      | (Returned fc, this') \<Rightarrow>
          (case argsOfField fc of
             None \<Rightarrow> (Returned (), this')
           | Some args \<Rightarrow>
               (Returned (),
                this'\<lparr>gqcFields :=
                  AList.map_entry fieldName
                    (\<lambda>fc. fc\<lparr>fc_args := Some
                       (foldl (\<lambda>args argName.
                                 AList.map_entry argName
                                   (\<lambda>ac. ac\<lparr>ac_type := f (ac_type ac)\<rparr>) args)
                          args argNames)\<rparr>)
                    (gqcFields this')\<rparr>)))"

definition makeFieldArgPlural :: "string \<Rightarrow> name_or_array \<Rightarrow> otc \<Rightarrow> unit outcome \<times> otc" where
  "makeFieldArgPlural fieldName argNameOrArray this =
     eachFieldArgType typePlural fieldName (toArray argNameOrArray) this"

definition makeFieldArgNonPlural :: "string \<Rightarrow> name_or_array \<Rightarrow> otc \<Rightarrow> unit outcome \<times> otc" where
  "makeFieldArgNonPlural fieldName argNameOrArray this =
     eachFieldArgType typeNonPlural fieldName (toArray argNameOrArray) this"

definition makeFieldArgNonNull :: "string \<Rightarrow> name_or_array \<Rightarrow> otc \<Rightarrow> unit outcome \<times> otc" where
  "makeFieldArgNonNull fieldName argNameOrArray this =
     eachFieldArgType typeNonNull fieldName (toArray argNameOrArray) this"

definition makeFieldArgNullable :: "string \<Rightarrow> name_or_array \<Rightarrow> otc \<Rightarrow> unit outcome \<times> otc" where
  "makeFieldArgNullable fieldName argNameOrArray this =
     eachFieldArgType typeNullable fieldName (toArray argNameOrArray) this"

text \<open>
  The type that a field of the composer's own has, for stating results (\<open>None\<close>
  when the field map has no own property of that name).
\<close>

definition fieldType :: "string \<Rightarrow> otc \<Rightarrow> compose_type option" where
  "fieldType fieldName this = map_option fc_type (map_of (gqcFields this) fieldName)"

definition fieldArgType :: "string \<Rightarrow> string \<Rightarrow> otc \<Rightarrow> compose_type option" where
  "fieldArgType fieldName argName this =
     (case map_of (gqcFields this) fieldName of
        None \<Rightarrow> None
      | Some fc \<Rightarrow> map_option ac_type (map_of (or_empty (fc_args fc)) argName))"

subsection \<open>Reordering fields\<close>

text \<open>
  \<^verbatim>\<open>
  const orderedFields = {};
  const fields = this._gqcFields;
  names.forEach(name => {
    if (fields[name]) {
      orderedFields[name] = fields[name];
      delete fields[name];
    }
  });
  this._gqcFields = { ...orderedFields, ...fields };
  \<close>
  \<open>flds\<close> stands for the source's \<open>fields\<close>.  The read \<open>fields[name]\<close>
  follows the prototype chain, so \<open>orderedFields\<close> and the new field map can hold
  an inherited member under a name that was no field.
\<close>

definition reorderStep ::
  "field_config property obj \<times> field_config obj \<Rightarrow> string
   \<Rightarrow> field_config property obj \<times> field_config obj" where
  "reorderStep acc name =
     (case acc of (orderedFields, flds) \<Rightarrow>
        (case getProp flds name of
           Some field \<Rightarrow> (setProp name field orderedFields, AList.delete name flds)
         | None \<Rightarrow> (orderedFields, flds)))"

definition reorderFields :: "string list \<Rightarrow> otc \<Rightarrow> field_config property composer" where
  "reorderFields names this =
     (case foldl reorderStep ([], gqcFields this) names of
        (orderedFields, flds) \<Rightarrow>
          \<lparr>typeName = typeName this,
           gqcFields = spread orderedFields (map (\<lambda>kv. (fst kv, Own (snd kv))) flds)\<rparr>)"

subsection \<open>Setting, extending and deprecating fields\<close>

text \<open>
  What \<open>setField\<close> and \<open>extendField\<close> accept: a field definition whose
  \<open>type\<close> and argument types may still be in shorthand notation
  (\<open>TypeUndefined\<close>: the definition has no \<open>type\<close>).  In the partial
  config of \<open>extendField\<close> every key is optional; a key that is \<open>Present\<close>
  overrides the previous value in \<open>{ ...prevFieldConfig, ...partialFieldConfig }\<close>,
  also when its value is \<open>undefined\<close>.
\<close>

datatype type_def = TypeAsComposer compose_type | TypeAsString string | TypeUndefined

datatype arg_def = ArgAsConfig arg_config | ArgAsString string

record field_def =
  fd_type :: type_def
  fd_args :: "arg_def obj option"
  fd_deprecationReason :: jsval
  fd_description :: jsval
  fd_extensions :: "jsval obj option"
  fd_rest :: "jsval obj"

datatype 'a opt_key = Absent | Present 'a

record field_partial =
  fp_type :: "type_def opt_key"
  fp_args :: "arg_def obj option opt_key"
  fp_deprecationReason :: "jsval opt_key"
  fp_description :: "jsval opt_key"
  fp_extensions :: "jsval obj option"
  fp_rest :: "jsval obj"

text \<open>One key of \<open>{ ...prev, ...partial }\<close>.\<close>

fun over :: "'a opt_key \<Rightarrow> 'a \<Rightarrow> 'a" where
  "over (Present v) prev = v"
| "over Absent prev = prev"

text \<open>
  \<^verbatim>\<open>
  {
    ...prevFieldConfig,
    ...partialFieldConfig,
    extensions: {
      ...(prevFieldConfig.extensions || {}),
      ...(partialFieldConfig.extensions || {}),
    },
  }
  \<close>
\<close>

text \<open>
  \<open>prevFieldConfig\<close> is what \<open>getField\<close> returned.  An inherited member is a
  function without enumerable properties of its own: the spread takes nothing from it,
  and its \<open>extensions\<close> is undefined.
\<close>

definition extendedConfig :: "field_config property \<Rightarrow> field_partial \<Rightarrow> field_def" where
  "extendedConfig prevFieldConfig partialFieldConfig =
     (case prevFieldConfig of
        Own prev \<Rightarrow>
          \<lparr>fd_type = over (fp_type partialFieldConfig) (TypeAsComposer (fc_type prev)),
           fd_args = over (fp_args partialFieldConfig)
             (map_option (map (\<lambda>kv. (fst kv, ArgAsConfig (snd kv)))) (fc_args prev)),
           fd_deprecationReason =
             over (fp_deprecationReason partialFieldConfig) (fc_deprecationReason prev),
           fd_description = over (fp_description partialFieldConfig) (fc_description prev),
           fd_extensions = Some (spread (or_empty (fc_extensions prev))
                                        (or_empty (fp_extensions partialFieldConfig))),
           fd_rest = spread (fc_rest prev) (fp_rest partialFieldConfig)\<rparr>
      | Inherited name \<Rightarrow>
          \<lparr>fd_type = over (fp_type partialFieldConfig) TypeUndefined,
           fd_args = over (fp_args partialFieldConfig) None,
           fd_deprecationReason = over (fp_deprecationReason partialFieldConfig) JUndefined,
           fd_description = over (fp_description partialFieldConfig) JUndefined,
           fd_extensions = Some (spread [] (or_empty (fp_extensions partialFieldConfig))),
           fd_rest = spread [] (fp_rest partialFieldConfig)\<rparr>)"

text \<open>
  \<open>schemaComposer.typeMapper.convertOutputFieldConfig\<close> is not part of these
  sources: the methods take it as the parameter \<open>tm\<close>.  It turns a definition into
  a field config or throws.
\<close>

type_synonym type_mapper = "field_def \<Rightarrow> field_config outcome"

definition setField :: "type_mapper \<Rightarrow> string \<Rightarrow> field_def \<Rightarrow> otc \<Rightarrow> unit outcome \<times> otc" where
  "setField tm fieldName fieldConfig this =
     (case tm fieldConfig of
        Threw e \<Rightarrow> (Threw e, this)
      | Returned fc \<Rightarrow>
          (Returned (), this\<lparr>gqcFields := setProp fieldName fc (gqcFields this)\<rparr>))"

definition extendField ::
  "type_mapper \<Rightarrow> string \<Rightarrow> field_partial \<Rightarrow> otc \<Rightarrow> unit outcome \<times> otc" where
  "extendField tm fieldName partialFieldConfig this =
     (case getField fieldName this of
        (Threw e, this') \<Rightarrow>
          (Threw (Error (''Cannot extend field '' @ quoted fieldName @ '' from type ''
             @ quoted (typeName this') @ ''. Field does not exist.'')), this')
      | (Returned prevFieldConfig, this') \<Rightarrow>
          setField tm fieldName (extendedConfig prevFieldConfig partialFieldConfig) this')"

text \<open>The partial config \<open>{ deprecationReason }\<close>.\<close>

definition deprecation :: "jsval \<Rightarrow> field_partial" where
  "deprecation reason =
     \<lparr>fp_type = Absent, fp_args = Absent, fp_deprecationReason = Present reason,
      fp_description = Absent, fp_extensions = None, fp_rest = []\<rparr>"

definition cannotDeprecate :: "string \<Rightarrow> otc \<Rightarrow> js_error" where
  "cannotDeprecate field this =
     Error (''Cannot deprecate unexisted field '' @ quoted field @ '' from type ''
            @ quoted (typeName this))"

text \<open>
  The body shared by the three branches of \<open>deprecateFields\<close>: the membership test
  against the names taken at entry, then \<open>extendField\<close>.
\<close>

definition deprecateOne ::
  "type_mapper \<Rightarrow> string list \<Rightarrow> string \<Rightarrow> jsval \<Rightarrow> otc \<Rightarrow> unit outcome \<times> otc" where
  "deprecateOne tm existedFieldNames field reason this =
     (if field \<notin> set existedFieldNames then (Threw (cannotDeprecate field this), this)
      else extendField tm field (deprecation reason) this)"

text \<open>\<open>forEach\<close> over the names: a throw ends the loop and keeps what was done.\<close>

fun deprecateEach ::
  "type_mapper \<Rightarrow> string list \<Rightarrow> (string \<times> jsval) list \<Rightarrow> otc \<Rightarrow> unit outcome \<times> otc" where
  "deprecateEach tm existedFieldNames [] this = (Returned (), this)"
| "deprecateEach tm existedFieldNames (fr # rest) this =
     (case deprecateOne tm existedFieldNames (fst fr) (snd fr) this of
        (Threw e, this') \<Rightarrow> (Threw e, this')
      | (Returned u, this') \<Rightarrow> deprecateEach tm existedFieldNames rest this')"

text \<open>The argument of \<open>deprecateFields\<close>: a name, a list of names or a name-to-reason map.\<close>

datatype deprecate_arg =
    FieldName string
  | FieldNames "string list"
  | FieldMap "string obj"

definition deprecateFields :: "type_mapper \<Rightarrow> deprecate_arg \<Rightarrow> otc \<Rightarrow> unit outcome \<times> otc" where
  "deprecateFields tm fieldsArg this =
     (let existedFieldNames = getFieldNames this in
      case fieldsArg of
        FieldName field \<Rightarrow>
          deprecateOne tm existedFieldNames field (JStr ''deprecated'') this
      | FieldNames names \<Rightarrow>
          deprecateEach tm existedFieldNames
            (map (\<lambda>field. (field, JStr ''deprecated'')) names) this
      | FieldMap fieldMap \<Rightarrow>
          deprecateEach tm existedFieldNames
            (map (\<lambda>field. (field, case map_of fieldMap field of
                                      None \<Rightarrow> JUndefined | Some reason \<Rightarrow> JStr reason))
               (map fst fieldMap)) this)"

text \<open>A field's deprecation reason, for stating results.\<close>

definition deprecationReasonOf :: "string \<Rightarrow> otc \<Rightarrow> jsval option" where
  "deprecationReasonOf fieldName this =
     map_option fc_deprecationReason (map_of (gqcFields this) fieldName)"

section \<open>Relations\<close>

text \<open>
  What a resolve function returns: a plain value or a promise, which in the end is
  fulfilled, rejected, or never settles.  A call may also throw before it returns.
\<close>

datatype promise = Fulfilled jsval | Rejected js_error | Pending

datatype payload = Value jsval | Promise promise

text \<open>\<open>(source, args, context, info) => ...\<close>\<close>

type_synonym resolve_fn = "jsval \<Rightarrow> jsval obj \<Rightarrow> jsval \<Rightarrow> jsval \<Rightarrow> payload outcome"

type_synonym args_mapper_fn = "jsval \<Rightarrow> jsval obj \<Rightarrow> jsval \<Rightarrow> jsval \<Rightarrow> jsval outcome"

text \<open>A value of \<open>prepareArgs\<close>: \<open>isFunction\<close> holds of \<open>MapperFn\<close> only.\<close>

datatype arg_map_val = MapperFn args_mapper_fn | MapperVal jsval

text \<open>
  Modelled from the spec: the \<open>Resolver\<close> class is not part of these sources.  A
  resolver is what \<open>_relationWithResolverToFC\<close> reads of it: \<open>type\<close>,
  \<open>args\<close>, \<open>description\<close> and the \<open>resolve\<close> of
  \<open>getFieldConfig()\<close> (\<open>None\<close> when it has none); \<open>r_deprecationReason\<close>
  is the resolver's own deprecation metadata that the spec speaks of, which the function
  never reads.
\<close>

record resolver =
  r_type :: compose_type
  r_args :: "arg_config obj"
  r_description :: jsval
  r_deprecationReason :: jsval
  r_resolve :: "resolve_fn option"

text \<open>
  The \<open>resolver\<close> option of a relation: an object that is a \<open>Resolver\<close> or
  not, given directly or as a thunk.
\<close>

datatype resolver_value = IsResolver resolver | NotResolver

datatype resolver_ref = Direct resolver_value | Thunk "unit \<Rightarrow> resolver_value"

text \<open>
  \<open>ObjectTypeComposerRelationOptsWithResolver\<close>; \<open>ro_type\<close> and
  \<open>ro_resolve\<close> are the properties \<open>type\<close> and \<open>resolve\<close> that the
  options must not have.
\<close>

record relation_opts =
  ro_resolver :: resolver_ref
  ro_prepareArgs :: "arg_map_val obj option"
  ro_projection :: jsval
  ro_description :: jsval
  ro_deprecationReason :: jsval
  ro_catchErrors :: jsval
  ro_type :: jsval
  ro_resolve :: jsval

text \<open>What \<open>console.log\<close> was called with.\<close>

datatype log_entry = LogString string | LogError js_error

type_synonym relation_resolve =
  "jsval \<Rightarrow> jsval obj \<Rightarrow> jsval \<Rightarrow> jsval \<Rightarrow> payload outcome \<times> log_entry list"

text \<open>The field config that \<open>_relationWithResolverToFC\<close> returns.\<close>

record relation_fc =
  rf_type :: compose_type
  rf_description :: jsval
  rf_deprecationReason :: jsval
  rf_args :: "arg_config obj"
  rf_resolve :: relation_resolve
  rf_projection :: jsval

text \<open>
  \<^verbatim>\<open>
  Object.keys(optsArgs).forEach(argName => {
    const argMapVal = optsArgs[argName];
    if (argMapVal !== undefined) {
      delete argsConfig[argName];
      if (isFunction(argMapVal)) {
        argsRuntime.push([argName, argMapVal]);
      } else if (argMapVal !== null) {
        argsProto[argName] = argMapVal;
      }
    }
  });
  \<close>
\<close>

definition prepareArg ::
  "arg_map_val obj \<Rightarrow> arg_config obj \<times> jsval obj \<times> (string \<times> args_mapper_fn) list \<Rightarrow> string
   \<Rightarrow> arg_config obj \<times> jsval obj \<times> (string \<times> args_mapper_fn) list" where
  "prepareArg optsArgs acc argName =
     (case acc of (argsConfig, argsProto, argsRuntime) \<Rightarrow>
        (case map_of optsArgs argName of
           None \<Rightarrow> acc
         | Some (MapperVal JUndefined) \<Rightarrow> acc
         | Some (MapperFn argFn) \<Rightarrow>
             (AList.delete argName argsConfig, argsProto, argsRuntime @ [(argName, argFn)])
         | Some (MapperVal argMapVal) \<Rightarrow>
             (if argMapVal \<noteq> JNull
              then (AList.delete argName argsConfig,
                    setProp argName argMapVal argsProto, argsRuntime)
              else (AList.delete argName argsConfig, argsProto, argsRuntime))))"

text \<open>
  \<^verbatim>\<open>
  argsRuntime.forEach(([argName, argFn]) => {
    newArgs[argName] = argFn(source, args, context, info);
  });
  \<close>
  A mapper that throws ends the call.
\<close>

fun runMappers ::
  "(string \<times> args_mapper_fn) list \<Rightarrow> jsval \<Rightarrow> jsval obj \<Rightarrow> jsval \<Rightarrow> jsval \<Rightarrow> jsval obj
   \<Rightarrow> jsval obj outcome" where
  "runMappers [] source args context info newArgs = Returned newArgs"
| "runMappers (m # rest) source args context info newArgs =
     (case (snd m) source args context info of
        Threw e \<Rightarrow> Threw e
      | Returned v \<Rightarrow>
          runMappers rest source args context info (setProp (fst m) v newArgs))"

text \<open>\<open>Promise.resolve(payload)\<close>\<close>

fun promiseResolve :: "payload \<Rightarrow> promise" where
  "promiseResolve (Value v) = Fulfilled v"
| "promiseResolve (Promise p) = p"

text \<open>
  \<^verbatim>\<open>
  Promise.resolve(payload).catch(e => {
    console.log(`GQC ERROR: relation for ${this.getTypeName()}.${fieldName} throws error:`);
    console.log(e);
    return null;
  })
  \<close>
  The result is the promise as it settles, with what the handler has logged by then.
\<close>

fun catchToNull :: "string \<Rightarrow> string \<Rightarrow> promise \<Rightarrow> payload outcome \<times> log_entry list" where
  "catchToNull tname fieldName (Rejected e) =
     (Returned (Promise (Fulfilled JNull)),
      [LogString (''GQC ERROR: relation for '' @ tname @ ''.'' @ fieldName @ '' throws error:''),
       LogError e])"
| "catchToNull tname fieldName p = (Returned (Promise p), [])"

text \<open>
  \<^verbatim>\<open>
  const resolve = (source, args, context, info) => {
    const newArgs = { ...args, ...argsProto };
    argsRuntime.forEach(...);
    const payload = fieldConfig.resolve
      ? fieldConfig.resolve(source, newArgs, context, info)
      : null;
    return catchErrors ? Promise.resolve(payload).catch(...) : payload;
  };
  \<close>
  in three steps: the arguments, the call of the delegate, and the return.
\<close>

definition callDelegate ::
  "resolve_fn option \<Rightarrow> jsval \<Rightarrow> jsval obj \<Rightarrow> jsval \<Rightarrow> jsval \<Rightarrow> payload outcome" where
  "callDelegate fieldConfigResolve source newArgs context info =
     (case fieldConfigResolve of
        Some resolve \<Rightarrow> resolve source newArgs context info
      | None \<Rightarrow> Returned (Value JNull))"

text \<open>
  The \<open>return\<close> statement, reached when the call has returned a payload; a call that
  threw has left \<open>resolve\<close> already.
\<close>

definition returnPayload ::
  "string \<Rightarrow> string \<Rightarrow> jsval \<Rightarrow> payload outcome \<Rightarrow> payload outcome \<times> log_entry list" where
  "returnPayload tname fieldName catchErrors called =
     (case called of
        Threw e \<Rightarrow> (Threw e, [])
      | Returned payload \<Rightarrow>
          (if truthy catchErrors
           then catchToNull tname fieldName (promiseResolve payload)
           else (Returned payload, [])))"

definition relationResolve ::
  "string \<Rightarrow> string \<Rightarrow> jsval obj \<Rightarrow> (string \<times> args_mapper_fn) list \<Rightarrow> jsval
   \<Rightarrow> resolve_fn option \<Rightarrow> relation_resolve" where
  "relationResolve tname fieldName argsProto argsRuntime catchErrors fieldConfigResolve
     source args context info =
     (case runMappers argsRuntime source args context info (spread args argsProto) of
        Threw e \<Rightarrow> (Threw e, [])
      | Returned newArgs \<Rightarrow>
          returnPayload tname fieldName catchErrors
            (callDelegate fieldConfigResolve source newArgs context info))"

text \<open>\<open>isFunction(opts.resolver) ? opts.resolver() : opts.resolver\<close>\<close>

fun resolveRef :: "resolver_ref \<Rightarrow> resolver_value" where
  "resolveRef (Thunk f) = f ()"
| "resolveRef (Direct r) = r"

text \<open>\<open>const { catchErrors = true } = opts\<close>\<close>

definition catchErrorsOf :: "relation_opts \<Rightarrow> jsval" where
  "catchErrorsOf opts =
     (if ro_catchErrors opts = JUndefined then JBool True else ro_catchErrors opts)"

text \<open>
  \<open>_relationWithResolverToFC(opts, fieldName)\<close>, the function that \<open>addRelation\<close>
  calls for options with a \<open>resolver\<close> (at once, or on the first access when the
  resolver is a thunk) and whose result it keeps as the field.
\<close>

definition relationWithResolverToFC :: "relation_opts \<Rightarrow> string \<Rightarrow> otc \<Rightarrow> relation_fc outcome" where
  "relationWithResolverToFC opts fieldName this =
     (case resolveRef (ro_resolver opts) of
        NotResolver \<Rightarrow>
          Threw (Error (''You should provide correct Resolver object for relation ''
                        @ typeName this @ ''.'' @ fieldName))
      | IsResolver resolver \<Rightarrow>
          if truthy (ro_type opts) then
            Threw (Error (''You can not use `resolver` and `type` properties simultaneously for relation ''
                          @ typeName this @ ''.'' @ fieldName))
          else if truthy (ro_resolve opts) then
            Threw (Error (''You can not use `resolver` and `resolve` properties simultaneously for relation ''
                          @ typeName this @ ''.'' @ fieldName))
          else
            (let optsArgs = or_empty (ro_prepareArgs opts) in
             case foldl (prepareArg optsArgs) (spread [] (r_args resolver), [], [])
                    (map fst optsArgs) of
               (argsConfig, argsProto, argsRuntime) \<Rightarrow>
                 Returned
                   \<lparr>rf_type = r_type resolver,
                    rf_description = js_or (ro_description opts) (r_description resolver),
                    rf_deprecationReason = ro_deprecationReason opts,
                    rf_args = argsConfig,
                    rf_resolve = relationResolve (typeName this) fieldName argsProto argsRuntime
                                   (catchErrorsOf opts) (r_resolve resolver),
                    rf_projection = ro_projection opts\<rparr>))"

section \<open>Notions for stating results\<close>

text \<open>A list without the repetitions of its elements, in the order of first occurrence.\<close>

fun firstOccurrences :: "'a list \<Rightarrow> 'a list" where
  "firstOccurrences [] = []"
| "firstOccurrences (x # xs) = x # firstOccurrences (filter (\<lambda>y. y \<noteq> x) xs)"

text \<open>What a call that returned has given, for stating results about a compiled relation.\<close>

definition returned :: "('a \<Rightarrow> 'b) \<Rightarrow> 'a outcome \<Rightarrow> 'b outcome" where
  "returned f r = (case r of Threw e \<Rightarrow> Threw e | Returned v \<Rightarrow> Returned (f v))"

section \<open>Example composers\<close>

text \<open>
  Concrete states on which the results below are evaluated.  A field or argument made
  from a type alone has no other property set.
\<close>

definition fieldOfType :: "compose_type \<Rightarrow> field_config" where
  "fieldOfType t =
     \<lparr>fc_type = t, fc_args = None, fc_deprecationReason = JUndefined,
      fc_description = JUndefined, fc_extensions = None, fc_rest = []\<rparr>"

definition argOfType :: "compose_type \<Rightarrow> arg_config" where
  "argOfType t =
     \<lparr>ac_type = t, ac_defaultValue = JUndefined, ac_description = JUndefined,
      ac_extensions = None\<rparr>"

text \<open>
  The fields of the plural test: \<open>b1: String!\<close>, \<open>b2: [String]\<close>,
  \<open>b3: String!\<close>, \<open>b4: [String!]!\<close>.
\<close>

definition pluralExample :: otc where
  "pluralExample =
     \<lparr>typeName = ''MyType'',
      gqcFields =
        [(''b1'', fieldOfType (NonNullComposer (NamedTC ''String''))),
         (''b2'', fieldOfType (ListComposer (NamedTC ''String''))),
         (''b3'', fieldOfType (NonNullComposer (NamedTC ''String''))),
         (''b4'', fieldOfType
            (NonNullComposer (ListComposer (NonNullComposer (NamedTC ''String'')))))]\<rparr>"

text \<open>A field \<open>f\<close> whose argument \<open>b2\<close> is \<open>[String]!\<close> and \<open>b4\<close> is \<open>[String!]!\<close>.\<close>

definition pluralArgsExample :: otc where
  "pluralArgsExample =
     \<lparr>typeName = ''MyType'',
      gqcFields =
        [(''f'', (fieldOfType (NamedTC ''Int''))\<lparr>fc_args := Some
           [(''b1'', argOfType (NonNullComposer (NamedTC ''String''))),
            (''b2'', argOfType (NonNullComposer (ListComposer (NamedTC ''String'')))),
            (''b3'', argOfType (NonNullComposer (NamedTC ''String''))),
            (''b4'', argOfType
               (NonNullComposer (ListComposer (NonNullComposer (NamedTC ''String'')))))]\<rparr>)]\<rparr>"

text \<open>Three fields in the order \<open>a\<close>, \<open>b\<close>, \<open>c\<close>.\<close>

definition abcExample :: otc where
  "abcExample =
     \<lparr>typeName = ''MyType'',
      gqcFields = [(''a'', fieldOfType (NamedTC ''Int'')), (''b'', fieldOfType (NamedTC ''Int'')),
                   (''c'', fieldOfType (NamedTC ''Int''))]\<rparr>"

text \<open>
  A type mapper for the examples: it keeps every property of a definition, reads a type
  string as the name of a type and throws when the type is missing or the empty string.
\<close>

definition sampleArg :: "arg_def \<Rightarrow> arg_config" where
  "sampleArg ad = (case ad of ArgAsConfig ac \<Rightarrow> ac | ArgAsString s \<Rightarrow> argOfType (NamedTC s))"

definition sampleTypeMapper :: type_mapper where
  "sampleTypeMapper fd =
     (if fd_type fd = TypeAsString [] \<or> fd_type fd = TypeUndefined
      then Threw (Error ''Cannot convert a definition without a type'')
      else Returned
        \<lparr>fc_type = (case fd_type fd of
                      TypeAsComposer t \<Rightarrow> t | TypeAsString s \<Rightarrow> NamedTC s
                    | TypeUndefined \<Rightarrow> NamedTC []),
         fc_args = map_option (map (\<lambda>kv. (fst kv, sampleArg (snd kv)))) (fd_args fd),
         fc_deprecationReason = fd_deprecationReason fd,
         fc_description = fd_description fd,
         fc_extensions = fd_extensions fd,
         fc_rest = fd_rest fd\<rparr>)"

text \<open>
  A field with extensions, and a partial config that sets a description and extension
  keys of its own, one of which the field has already.
\<close>

definition extensionsExample :: otc where
  "extensionsExample =
     \<lparr>typeName = ''MyType'',
      gqcFields =
        [(''field1'', fieldOfType (NamedTC ''String'')),
         (''field3'', (fieldOfType (NamedTC ''String''))
            \<lparr>fc_extensions := Some [(''first'', JBool True), (''shared'', JNum 1)]\<rparr>)]\<rparr>"

definition extensionsPartial :: field_partial where
  "extensionsPartial =
     \<lparr>fp_type = Absent, fp_args = Absent, fp_deprecationReason = Absent,
      fp_description = Present (JStr ''this is field #3''),
      fp_extensions = Some [(''second'', JBool True), (''shared'', JNum 2)], fp_rest = []\<rparr>"

text \<open>The partial config \<open>{ type: 'Int' }\<close>.\<close>

definition intPartial :: field_partial where
  "intPartial =
     \<lparr>fp_type = Present (TypeAsString ''Int''), fp_args = Absent, fp_deprecationReason = Absent,
      fp_description = Absent, fp_extensions = None, fp_rest = []\<rparr>"


text \<open>
  The relation of the specification's example: a delegate with the arguments \<open>id\<close>
  and \<open>limit\<close> and \<open>prepareArgs = { limit: 10, id: (src) => src.id }\<close>.  The
  delegate's resolve answers with a promise of the arguments it was called with.
\<close>

definition propertyOf :: "jsval \<Rightarrow> string \<Rightarrow> jsval outcome" where
  "propertyOf v name =
     (case v of
        JUndefined \<Rightarrow> Threw (Error (''Cannot read property '' @ quoted name @ '' of undefined''))
      | JNull \<Rightarrow> Threw (Error (''Cannot read property '' @ quoted name @ '' of null''))
      | JObj kvs \<Rightarrow> Returned (case map_of kvs name of None \<Rightarrow> JUndefined | Some x \<Rightarrow> x)
      | _ \<Rightarrow> Returned JUndefined)"

definition echoArgs :: resolve_fn where
  "echoArgs source args context info = Returned (Promise (Fulfilled (JObj args)))"

definition exampleResolver :: resolver where
  "exampleResolver =
     \<lparr>r_type = NamedTC ''User'',
      r_args = [(''id'', argOfType (NamedTC ''Int'')), (''limit'', argOfType (NamedTC ''Int''))],
      r_description = JStr ''Find a user'',
      r_deprecationReason = JStr ''use findMany'',
      r_resolve = Some echoArgs\<rparr>"

definition examplePrepareArgs :: "arg_map_val obj" where
  "examplePrepareArgs =
     [(''limit'', MapperVal (JNum 10)),
      (''id'', MapperFn (\<lambda>source args context info. propertyOf source ''id''))]"

definition exampleRelation :: relation_opts where
  "exampleRelation =
     \<lparr>ro_resolver = Direct (IsResolver exampleResolver),
      ro_prepareArgs = Some examplePrepareArgs,
      ro_projection = JUndefined,
      ro_description = JUndefined,
      ro_deprecationReason = JUndefined,
      ro_catchErrors = JUndefined,
      ro_type = JUndefined,
      ro_resolve = JUndefined\<rparr>"

text \<open>Delegates that fail: by a rejected promise, and by throwing.\<close>

definition rejecting :: resolve_fn where
  "rejecting source args context info = Returned (Promise (Rejected (Error ''boom'')))"

definition throwing :: resolve_fn where
  "throwing source args context info = Threw (Error ''boom'')"

definition relationTo :: "resolve_fn \<Rightarrow> jsval \<Rightarrow> relation_opts" where
  "relationTo resolve catchErrors =
     exampleRelation
       \<lparr>ro_resolver := Direct (IsResolver (exampleResolver\<lparr>r_resolve := Some resolve\<rparr>)),
        ro_catchErrors := catchErrors\<rparr>"

section \<open>Objects: results\<close>

lemma update_absent: "k \<notin> fst ` set t \<Longrightarrow> AList.update k v t = t @ [(k, v)]"
  by (induction t) auto

lemma defineKey_own: "map_of ob k \<noteq> None \<Longrightarrow> defineKey k v ob = AList.update k v ob"
  by (simp add: defineKey_def)

lemma defineKey_ordinary: "arrayIndex k = None \<Longrightarrow> defineKey k v ob = AList.update k v ob"
  by (simp add: defineKey_def update_absent map_of_eq_None_iff)

lemma map_of_insert_absent:
  "map_of ob k = None \<Longrightarrow>
   map_of (takeWhile P ob @ [(k, v)] @ dropWhile P ob) = (map_of ob)(k \<mapsto> v)"
proof -
  assume a: "map_of ob k = None"
  have "map_of (takeWhile P ob @ dropWhile P ob) k = None" using a by simp
  then have t: "map_of (takeWhile P ob) k = None" and d: "map_of (dropWhile P ob) k = None"
    by (auto simp: map_add_def split: option.splits simp del: takeWhile_dropWhile_id)
  have "map_of ob = map_of (takeWhile P ob @ dropWhile P ob)" by simp
  then have split: "\<And>x. map_of ob x = (map_of (dropWhile P ob) ++ map_of (takeWhile P ob)) x"
    by (simp only: map_of_append)
  show ?thesis
  proof
    fix x
    show "map_of (takeWhile P ob @ [(k, v)] @ dropWhile P ob) x = ((map_of ob)(k \<mapsto> v)) x"
      using t d split [of x]
      by (auto simp: map_add_def split: option.splits)
  qed
qed

lemma map_of_defineKey: "map_of (defineKey k v ob) = (map_of ob)(k \<mapsto> v)"
proof (cases "map_of ob k")
  case absent: None
  show ?thesis
  proof (cases "arrayIndex k")
    case None
    have "map_of (ob @ [(k, v)]) = (map_of ob)(k \<mapsto> v)"
      using absent by (auto simp: fun_eq_iff map_add_def split: option.splits)
    with absent None show ?thesis by (simp add: defineKey_def)
  next
    case (Some n)
    have "defineKey k v ob
        = takeWhile (beforeIndex n) ob @ [(k, v)] @ dropWhile (beforeIndex n) ob"
      using absent Some by (simp add: defineKey_def)
    then show ?thesis by (simp only: map_of_insert_absent [OF absent])
  qed
next
  case (Some a)
  then show ?thesis by (simp add: defineKey_def update_conv')
qed

lemma keys_defineKey:
  "set (map fst (defineKey k v ob)) = insert k (set (map fst ob))"
proof -
  have "dom (map_of (defineKey k v ob)) = insert k (dom (map_of ob))"
    by (simp add: map_of_defineKey)
  then show ?thesis by (simp add: dom_map_of_conv_image_fst)
qed

lemma keys_defineKey_own:
  "map_of ob k \<noteq> None \<Longrightarrow> map fst (defineKey k v ob) = map fst ob"
  using map_of_eq_None_iff [of ob k] by (simp add: defineKey_own update_keys)

lemma distinct_defineKey:
  "distinct (map fst ob) \<Longrightarrow> distinct (map fst (defineKey k v ob))"
proof (cases "map_of ob k")
  case None
  assume d: "distinct (map fst ob)"
  from None have k: "k \<notin> fst ` set ob" by (simp add: map_of_eq_None_iff)
  have "distinct (map fst (takeWhile P ob @ dropWhile P ob))" for P :: "string \<times> 'a \<Rightarrow> bool"
    using d by simp
  then have "distinct (map fst (takeWhile P ob @ [(k, v)] @ dropWhile P ob))"
    for P :: "string \<times> 'a \<Rightarrow> bool"
    using k set_takeWhileD [of _ P ob] set_dropWhileD [of _ P ob]
    by (auto simp del: takeWhile_dropWhile_id)
  with None d k show ?thesis
    by (cases "arrayIndex k") (simp_all add: defineKey_def)
next
  case (Some a)
  assume "distinct (map fst ob)"
  with Some show ?thesis by (simp add: defineKey_own distinct_update)
qed

lemma setProp_own: "map_of ob k \<noteq> None \<Longrightarrow> setProp k v ob = AList.update k v ob"
  by (auto simp: setProp_def defineKey_own)

lemma map_of_setProp:
  "k \<noteq> ''__proto__'' \<Longrightarrow> map_of (setProp k v ob) = (map_of ob)(k \<mapsto> v)"
  by (simp add: setProp_def map_of_defineKey)

lemma map_of_setProp_other:
  "k' \<noteq> ''__proto__'' \<Longrightarrow>
   map_of (setProp k v ob) k' = (if k' = k then Some v else map_of ob k')"
  by (simp add: setProp_def map_of_defineKey)

lemma distinct_setProp:
  "distinct (map fst ob) \<Longrightarrow> distinct (map fst (setProp k v ob))"
  by (simp add: setProp_def distinct_defineKey)

lemma getProp_own: "map_of ob k = Some v \<Longrightarrow> getProp ob k = Some (Own v)"
  by (simp add: getProp_def)

lemma getProp_own_iff: "getProp ob k = Some (Own v) \<longleftrightarrow> map_of ob k = Some v"
  by (auto simp: getProp_def split: option.splits)

lemma distinct_assign:
  "distinct (map fst t) \<Longrightarrow> distinct (map fst (assign t s))"
  unfolding assign_def by (induction s arbitrary: t) (simp_all add: distinct_defineKey)

lemma map_of_assign:
  "distinct (map fst s) \<Longrightarrow>
   map_of (assign t s) k = (case map_of s k of Some v \<Rightarrow> Some v | None \<Rightarrow> map_of t k)"
proof (induction s arbitrary: t)
  case Nil
  then show ?case by (simp add: assign_def)
next
  case (Cons kv s)
  have "assign t (kv # s) = assign (defineKey (fst kv) (snd kv) t) s"
    by (simp add: assign_def)
  moreover have "map_of s (fst kv) = None"
    using Cons.prems by (simp add: map_of_eq_None_iff)
  ultimately show ?case
    using Cons.IH [of "defineKey (fst kv) (snd kv) t"] Cons.prems
    by (cases kv) (auto simp: map_of_defineKey split: option.splits)
qed

lemma map_of_spread:
  "distinct (map fst a) \<Longrightarrow> distinct (map fst b) \<Longrightarrow>
   map_of (spread a b) k = (case map_of b k of Some v \<Rightarrow> Some v | None \<Rightarrow> map_of a k)"
  by (simp add: spread_def map_of_assign split: option.splits)

lemma distinct_spread: "distinct (map fst (spread a b))"
  by (simp add: spread_def distinct_assign)

lemma enumerated_distinct: "enumerated ob \<Longrightarrow> distinct (map fst ob)"
  using distinct_assign [of "[]" ob] by (simp add: enumerated_def)

lemma spread_enumerated: "enumerated ob \<Longrightarrow> spread [] ob = ob"
  by (simp add: spread_def enumerated_def assign_def)

section \<open>Wrapping and unwrapping: results\<close>

subsection \<open>Updating entries of an object\<close>

lemma map_of_foldl_map_entry:
  "distinct ns \<Longrightarrow>
   map_of (foldl (\<lambda>fs n. AList.map_entry n h fs) fs ns) k =
     (if k \<in> set ns then map_option h (map_of fs k) else map_of fs k)"
proof (induction ns arbitrary: fs)
  case Nil
  then show ?case by simp
next
  case (Cons n ns)
  then show ?case
    by (auto simp: map_of_map_entry split: option.splits)
qed

lemma map_entry_twice:
  "(\<And>x. h (h x) = h x) \<Longrightarrow> AList.map_entry k h (AList.map_entry k h xs) = AList.map_entry k h xs"
  by (induction xs) auto

lemma map_entry_swap:
  "k \<noteq> k' \<Longrightarrow>
   AList.map_entry k h (AList.map_entry k' h' xs) = AList.map_entry k' h' (AList.map_entry k h xs)"
  by (induction xs) auto

lemma map_entry_foldl_swap:
  "AList.map_entry k h (foldl (\<lambda>fs n. AList.map_entry n h fs) fs ns) =
   foldl (\<lambda>fs n. AList.map_entry n h fs) (AList.map_entry k h fs) ns"
proof (induction ns arbitrary: fs)
  case Nil
  then show ?case by simp
next
  case (Cons n ns)
  show ?case
  proof (cases "k = n")
    case True
    then show ?thesis using Cons.IH by simp
  next
    case False
    then show ?thesis using Cons.IH by (simp add: map_entry_swap)
  qed
qed

lemma foldl_map_entry_twice:
  assumes "\<And>x. h (h x) = h x"
  shows "foldl (\<lambda>fs n. AList.map_entry n h fs) (foldl (\<lambda>fs n. AList.map_entry n h fs) fs ns) ns =
         foldl (\<lambda>fs n. AList.map_entry n h fs) fs ns"
proof (induction ns arbitrary: fs)
  case Nil
  then show ?case by simp
next
  case (Cons n ns)
  have "foldl (\<lambda>fs n. AList.map_entry n h fs)
          (foldl (\<lambda>fs n. AList.map_entry n h fs) fs (n # ns)) (n # ns) =
        foldl (\<lambda>fs n. AList.map_entry n h fs)
          (foldl (\<lambda>fs n. AList.map_entry n h fs) (AList.map_entry n h (AList.map_entry n h fs)) ns) ns"
    by (simp add: map_entry_foldl_swap)
  also have "\<dots> = foldl (\<lambda>fs n. AList.map_entry n h fs) (AList.map_entry n h fs) ns"
    using assms by (simp add: map_entry_twice Cons.IH)
  finally show ?case by simp
qed

subsection \<open>The type updates\<close>

lemma fieldType_eachFieldType:
  "distinct ns \<Longrightarrow>
   fieldType k (eachFieldType f ns this) =
     (if k \<in> set ns then map_option f (fieldType k this) else fieldType k this)"
  by (simp add: fieldType_def eachFieldType_def map_of_foldl_map_entry option.map_comp comp_def)

lemma typeNonPlural_typePlural:
  "typeNonPlural (typePlural w) = (case w of ListComposer x \<Rightarrow> x | _ \<Rightarrow> w)"
  by (cases w) (simp_all add: typePlural_def)

lemma typeNonNull_idem: "typeNonNull (typeNonNull w) = typeNonNull w"
  by (cases w) (simp_all add: typeNonNull_def)

lemma makeFieldNonNull_twice:
  "makeFieldNonNull names (makeFieldNonNull names this) = makeFieldNonNull names this"
  unfolding makeFieldNonNull_def eachFieldType_def
  by (simp add: foldl_map_entry_twice typeNonNull_idem)

lemma fieldArgType_eachFieldArgType:
  assumes "distinct argNames" and "a \<in> set argNames" and "fieldArgType f a this = Some t"
  shows "fst (eachFieldArgType h f argNames this) = Returned () \<and>
         fieldArgType f a (snd (eachFieldArgType h f argNames this)) = Some (h t)"
proof -
  from assms(3) obtain fc where fc: "map_of (gqcFields this) f = Some fc"
    by (auto simp: fieldArgType_def split: option.splits)
  with assms(3) obtain args where args: "fc_args fc = Some args"
    by (cases "fc_args fc") (auto simp: fieldArgType_def or_empty_def)
  with assms(3) fc obtain ac where ac: "map_of args a = Some ac" "ac_type ac = t"
    by (auto simp: fieldArgType_def or_empty_def)
  show ?thesis
    using fc args ac assms(1,2)
    by (simp add: eachFieldArgType_def getField_def getProp_def fieldArgType_def or_empty_def
        map_of_map_entry map_of_foldl_map_entry)
qed


lemma map_entry_same:
  "map_of xs k = Some v \<Longrightarrow> h v = v \<Longrightarrow> AList.map_entry k h xs = xs"
  by (induction xs) (auto split: if_splits)

lemma map_entry_compose:
  "AList.map_entry k g (AList.map_entry k h xs) = AList.map_entry k (\<lambda>x. g (h x)) xs"
  by (induction xs) auto

lemma eachFieldType_single_restores:
  assumes "fieldType f this = Some w" and "g (h w) = w"
  shows "eachFieldType g [f] (eachFieldType h [f] this) = this"
proof -
  from assms(1) obtain fc where fc: "map_of (gqcFields this) f = Some fc" "fc_type fc = w"
    by (auto simp: fieldType_def)
  have "AList.map_entry f (\<lambda>x. x\<lparr>fc_type := g (h (fc_type x))\<rparr>) (gqcFields this) = gqcFields this"
    using fc assms(2) by (intro map_entry_same [where v = fc]) simp_all
  then show ?thesis
    by (simp add: eachFieldType_def map_entry_compose)
qed


subsection \<open>Removing a list layer under NonNull\<close>

text \<open>
  Claim C4, as amended.  When \<open>makeFieldNonPlural\<close> (or \<open>makeFieldArgNonPlural\<close>)
  removes the list layer of a type \<open>NonNull(List(inner))\<close>, the result is always
  NonNull: it is \<open>inner\<close> itself when \<open>inner\<close> is a \<open>NonNullComposer\<close>, and
  \<open>NonNull(inner)\<close> otherwise.  The names are distinct and contain the field
  (argument) in question.
\<close>

theorem makeFieldNonPlural_keeps_NonNull:
  "(distinct (toArray names) \<and> f \<in> set (toArray names) \<and>
      fieldType f this = Some (NonNullComposer (ListComposer inner))
    \<longrightarrow> fieldType f (makeFieldNonPlural names this) =
          Some (if isNonNullComposer inner then inner else NonNullComposer inner) \<and>
        isFieldNonNull f (makeFieldNonPlural names this) =
          (Returned True, makeFieldNonPlural names this)) \<and>
   (distinct (toArray argNames) \<and> a \<in> set (toArray argNames) \<and>
      fieldArgType f a this = Some (NonNullComposer (ListComposer inner))
    \<longrightarrow> fst (makeFieldArgNonPlural f argNames this) = Returned () \<and>
        fieldArgType f a (snd (makeFieldArgNonPlural f argNames this)) =
          Some (if isNonNullComposer inner then inner else NonNullComposer inner) \<and>
        isNonNullComposer (if isNonNullComposer inner then inner else NonNullComposer inner))"
proof (intro conjI impI)
  assume h: "distinct (toArray names) \<and> f \<in> set (toArray names) \<and>
      fieldType f this = Some (NonNullComposer (ListComposer inner))"
  then show t: "fieldType f (makeFieldNonPlural names this) =
          Some (if isNonNullComposer inner then inner else NonNullComposer inner)"
    by (simp add: makeFieldNonPlural_def fieldType_eachFieldType)
  then show "isFieldNonNull f (makeFieldNonPlural names this) =
          (Returned True, makeFieldNonPlural names this)"
    by (auto simp: isFieldNonNull_def getField_def getProp_def fieldType_def split: option.splits)
next
  assume h: "distinct (toArray argNames) \<and> a \<in> set (toArray argNames) \<and>
      fieldArgType f a this = Some (NonNullComposer (ListComposer inner))"
  then have "fst (eachFieldArgType typeNonPlural f (toArray argNames) this) = Returned () \<and>
         fieldArgType f a (snd (eachFieldArgType typeNonPlural f (toArray argNames) this)) =
           Some (typeNonPlural (NonNullComposer (ListComposer inner)))"
    using fieldArgType_eachFieldArgType by blast
  then show "fst (makeFieldArgNonPlural f argNames this) = Returned ()"
    and "fieldArgType f a (snd (makeFieldArgNonPlural f argNames this)) =
          Some (if isNonNullComposer inner then inner else NonNullComposer inner)"
    by (simp_all add: makeFieldArgNonPlural_def)
next
  show "isNonNullComposer (if isNonNullComposer inner then inner else NonNullComposer inner)"
    by simp
qed

theorem makeFieldNonPlural_counterexample:
  "fieldType ''b2'' (makeFieldNonNull (Single ''b2'') pluralExample) =
     Some (NonNullComposer (ListComposer (NamedTC ''String''))) \<and>
   \<not> isNonNullComposer (NamedTC ''String'') \<and>
   fieldType ''b2'' (makeFieldNonPlural (Many [''b2'', ''b4'', ''unexisted''])
                      (makeFieldNonNull (Single ''b2'') pluralExample)) =
     Some (NonNullComposer (NamedTC ''String'')) \<and>
   fieldArgType ''f'' ''b2'' pluralArgsExample =
     Some (NonNullComposer (ListComposer (NamedTC ''String''))) \<and>
   fieldArgType ''f'' ''b2''
      (snd (makeFieldArgNonPlural ''f'' (Many [''b2'', ''b4'', ''unexisted'']) pluralArgsExample)) =
     Some (NonNullComposer (NamedTC ''String''))"
  by (simp add: fieldType_def fieldArgType_def makeFieldNonNull_def makeFieldNonPlural_def
      makeFieldArgNonPlural_def eachFieldArgType_def getField_def getProp_def or_empty_def
      eachFieldType_def pluralExample_def pluralArgsExample_def fieldOfType_def argOfType_def
      typeNonNull_def)

theorem makeFieldNonPlural_keeps_NonNull_witness:
  "fieldType ''b4'' (makeFieldNonPlural (Many [''b2'', ''b4'', ''unexisted'']) pluralExample) =
     Some (NonNullComposer (NamedTC ''String'')) \<and>
   fieldArgType ''f'' ''b2''
      (snd (makeFieldArgNonPlural ''f'' (Many [''b2'', ''b4'', ''unexisted'']) pluralArgsExample)) =
     Some (NonNullComposer (NamedTC ''String''))"
proof -
  have a: "fieldType ''b4'' pluralExample =
      Some (NonNullComposer (ListComposer (NonNullComposer (NamedTC ''String''))))"
    by (simp add: fieldType_def pluralExample_def fieldOfType_def)
  have b: "fieldArgType ''f'' ''b2'' pluralArgsExample =
      Some (NonNullComposer (ListComposer (NamedTC ''String'')))"
    by (simp add: fieldArgType_def pluralArgsExample_def fieldOfType_def argOfType_def or_empty_def)
  show ?thesis
    using makeFieldNonPlural_keeps_NonNull
      [of "Many [''b2'', ''b4'', ''unexisted'']" "''b4''" pluralExample
          "NonNullComposer (NamedTC ''String'')"]
      makeFieldNonPlural_keeps_NonNull
      [where argNames = "Many [''b2'', ''b4'', ''unexisted'']" and a = "''b2''" and f = "''f''"
         and this = pluralArgsExample and inner = "NamedTC ''String''"] a b
    by simp
qed

subsection \<open>NonNull then nullable\<close>

text \<open>
  Claim C6, as amended.  \<open>makeFieldNonNull\<close> is idempotent.  \<open>makeFieldNullable\<close>
  after \<open>makeFieldNonNull\<close> leaves a field of type \<open>w\<close> with \<open>w\<close> when
  \<open>w\<close> is not a \<open>NonNullComposer\<close> (the composer is then as it was), and with
  \<open>x\<close> when \<open>w\<close> is \<open>NonNull(x)\<close>.
\<close>

theorem makeFieldNullable_makeFieldNonNull:
  "makeFieldNonNull names (makeFieldNonNull names this) = makeFieldNonNull names this \<and>
   (distinct (toArray names) \<and> f \<in> set (toArray names) \<and> fieldType f this = Some w
    \<longrightarrow> fieldType f (makeFieldNullable names (makeFieldNonNull names this)) =
          Some (case w of NonNullComposer x \<Rightarrow> x | _ \<Rightarrow> w)) \<and>
   (fieldType f this = Some w \<and> \<not> isNonNullComposer w
    \<longrightarrow> makeFieldNullable (Single f) (makeFieldNonNull (Single f) this) = this)"
proof (intro conjI impI)
  show "makeFieldNonNull names (makeFieldNonNull names this) = makeFieldNonNull names this"
    by (rule makeFieldNonNull_twice)
next
  assume "distinct (toArray names) \<and> f \<in> set (toArray names) \<and> fieldType f this = Some w"
  then have "fieldType f (makeFieldNullable names (makeFieldNonNull names this)) =
      Some (typeNullable (typeNonNull w))"
    by (simp add: makeFieldNullable_def makeFieldNonNull_def fieldType_eachFieldType)
  then show "fieldType f (makeFieldNullable names (makeFieldNonNull names this)) =
      Some (case w of NonNullComposer x \<Rightarrow> x | _ \<Rightarrow> w)"
    by (cases w) (simp_all add: typeNonNull_def)
next
  assume "fieldType f this = Some w \<and> \<not> isNonNullComposer w"
  then show "makeFieldNullable (Single f) (makeFieldNonNull (Single f) this) = this"
    by (simp add: makeFieldNullable_def makeFieldNonNull_def eachFieldType_single_restores
        typeNonNull_def)
qed

theorem makeFieldNullable_makeFieldNonNull_witness:
  "fieldType ''b2'' (makeFieldNullable (Many [''b1'', ''b2'']) (makeFieldNonNull (Many [''b1'', ''b2'']) pluralExample)) =
     Some (ListComposer (NamedTC ''String'')) \<and>
   fieldType ''b1'' (makeFieldNullable (Many [''b1'', ''b2'']) (makeFieldNonNull (Many [''b1'', ''b2'']) pluralExample)) =
     Some (NamedTC ''String'') \<and>
   makeFieldNullable (Single ''b2'') (makeFieldNonNull (Single ''b2'') pluralExample) = pluralExample"
proof -
  have a: "fieldType ''b2'' pluralExample = Some (ListComposer (NamedTC ''String''))"
    and b: "fieldType ''b1'' pluralExample = Some (NonNullComposer (NamedTC ''String''))"
    by (simp_all add: fieldType_def pluralExample_def fieldOfType_def)
  show ?thesis
    using makeFieldNullable_makeFieldNonNull
      [where names = "Many [''b1'', ''b2'']" and f = "''b2''" and this = pluralExample
         and w = "ListComposer (NamedTC ''String'')"]
      makeFieldNullable_makeFieldNonNull
      [where names = "Many [''b1'', ''b2'']" and f = "''b1''" and this = pluralExample
         and w = "NonNullComposer (NamedTC ''String'')"] a b
    by simp
qed

theorem makeFieldNullable_makeFieldNonNull_counterexample:
  "fieldType ''b1'' pluralExample = Some (NonNullComposer (NamedTC ''String'')) \<and>
   fieldType ''b1'' (makeFieldNullable (Single ''b1'') (makeFieldNonNull (Single ''b1'') pluralExample)) =
     Some (NamedTC ''String'') \<and>
   makeFieldNullable (Single ''b1'') (makeFieldNonNull (Single ''b1'') pluralExample) \<noteq> pluralExample"
proof -
  have a: "fieldType ''b1'' pluralExample = Some (NonNullComposer (NamedTC ''String''))"
    by (simp add: fieldType_def pluralExample_def fieldOfType_def)
  have b: "fieldType ''b1'' (makeFieldNullable (Single ''b1'') (makeFieldNonNull (Single ''b1'') pluralExample)) =
     Some (NamedTC ''String'')"
    by (simp add: fieldType_def makeFieldNullable_def makeFieldNonNull_def eachFieldType_def
        pluralExample_def fieldOfType_def typeNonNull_def)
  from a b have "makeFieldNullable (Single ''b1'') (makeFieldNonNull (Single ''b1'') pluralExample) \<noteq> pluralExample"
    by auto
  with a b show ?thesis by blast
qed

subsection \<open>Plural then non-plural\<close>

text \<open>
  Claim C5.  \<open>makeFieldNonPlural\<close> after \<open>makeFieldPlural\<close> leaves a field of
  type \<open>w\<close> with the element type as it was, nullability included: \<open>w\<close> itself
  when \<open>w\<close> is not a \<open>ListComposer\<close> (the composer is then as it was), and
  \<open>x\<close> when \<open>w\<close> is \<open>List(x)\<close>.
\<close>

theorem makeFieldNonPlural_makeFieldPlural:
  "(distinct (toArray names) \<and> f \<in> set (toArray names) \<and> fieldType f this = Some w
    \<longrightarrow> fieldType f (makeFieldNonPlural names (makeFieldPlural names this)) =
          Some (case w of ListComposer x \<Rightarrow> x | _ \<Rightarrow> w) \<and>
        isFieldNonNull f (makeFieldNonPlural names (makeFieldPlural names this)) =
          (Returned (isNonNullComposer (case w of ListComposer x \<Rightarrow> x | _ \<Rightarrow> w)),
           makeFieldNonPlural names (makeFieldPlural names this))) \<and>
   (fieldType f this = Some w \<and> \<not> isListComposer w
    \<longrightarrow> makeFieldNonPlural (Single f) (makeFieldPlural (Single f) this) = this)"
proof (intro conjI impI)
  assume "distinct (toArray names) \<and> f \<in> set (toArray names) \<and> fieldType f this = Some w"
  then show t: "fieldType f (makeFieldNonPlural names (makeFieldPlural names this)) =
      Some (case w of ListComposer x \<Rightarrow> x | _ \<Rightarrow> w)"
    by (simp add: makeFieldNonPlural_def makeFieldPlural_def fieldType_eachFieldType
        typeNonPlural_typePlural)
  then show "isFieldNonNull f (makeFieldNonPlural names (makeFieldPlural names this)) =
          (Returned (isNonNullComposer (case w of ListComposer x \<Rightarrow> x | _ \<Rightarrow> w)),
           makeFieldNonPlural names (makeFieldPlural names this))"
    by (auto simp: isFieldNonNull_def getField_def getProp_def fieldType_def split: option.splits)
next
  assume "fieldType f this = Some w \<and> \<not> isListComposer w"
  then show "makeFieldNonPlural (Single f) (makeFieldPlural (Single f) this) = this"
    by (simp add: makeFieldNonPlural_def makeFieldPlural_def eachFieldType_single_restores
        typePlural_def)
qed

theorem makeFieldNonPlural_makeFieldPlural_witness:
  "fieldType ''b1'' (makeFieldNonPlural (Many [''b1'', ''b2'']) (makeFieldPlural (Many [''b1'', ''b2'']) pluralExample)) =
     Some (NonNullComposer (NamedTC ''String'')) \<and>
   isFieldNonNull ''b1'' (makeFieldNonPlural (Many [''b1'', ''b2'']) (makeFieldPlural (Many [''b1'', ''b2'']) pluralExample)) =
     (Returned True, makeFieldNonPlural (Many [''b1'', ''b2'']) (makeFieldPlural (Many [''b1'', ''b2'']) pluralExample)) \<and>
   fieldType ''b2'' (makeFieldNonPlural (Many [''b1'', ''b2'']) (makeFieldPlural (Many [''b1'', ''b2'']) pluralExample)) =
     Some (NamedTC ''String'') \<and>
   makeFieldNonPlural (Single ''b4'') (makeFieldPlural (Single ''b4'') pluralExample) = pluralExample"
proof -
  have a: "fieldType ''b1'' pluralExample = Some (NonNullComposer (NamedTC ''String''))"
    and b: "fieldType ''b2'' pluralExample = Some (ListComposer (NamedTC ''String''))"
    and c: "fieldType ''b4'' pluralExample =
      Some (NonNullComposer (ListComposer (NonNullComposer (NamedTC ''String''))))"
    by (simp_all add: fieldType_def pluralExample_def fieldOfType_def)
  show ?thesis
    using makeFieldNonPlural_makeFieldPlural
      [where names = "Many [''b1'', ''b2'']" and f = "''b1''" and this = pluralExample
         and w = "NonNullComposer (NamedTC ''String'')"]
      makeFieldNonPlural_makeFieldPlural
      [where names = "Many [''b1'', ''b2'']" and f = "''b2''" and this = pluralExample
         and w = "ListComposer (NamedTC ''String'')"]
      makeFieldNonPlural_makeFieldPlural
      [where f = "''b4''" and this = pluralExample
         and w = "NonNullComposer (ListComposer (NonNullComposer (NamedTC ''String'')))"]
      a b c
    by simp
qed

section \<open>Reordering fields: results\<close>

lemma set_firstOccurrences: "set (firstOccurrences xs) = set xs"
  by (induction xs rule: firstOccurrences.induct) auto

lemma distinct_firstOccurrences: "distinct (firstOccurrences xs)"
  by (induction xs rule: firstOccurrences.induct) (auto simp: set_firstOccurrences)

lemma assign_append:
  "distinct (map fst s) \<Longrightarrow> fst ` set t \<inter> fst ` set s = {} \<Longrightarrow>
   \<forall>k \<in> fst ` set s. arrayIndex k = None \<Longrightarrow> assign t s = t @ s"
proof (induction s arbitrary: t)
  case Nil
  then show ?case by (simp add: assign_def)
next
  case (Cons kv s)
  have "assign t (kv # s) = assign (defineKey (fst kv) (snd kv) t) s"
    by (simp add: assign_def)
  also have "defineKey (fst kv) (snd kv) t = t @ [kv]"
    using Cons.prems(2,3) by (simp add: defineKey_ordinary update_absent)
  also have "assign (t @ [kv]) s = (t @ [kv]) @ s"
    using Cons.prems by (intro Cons.IH) (auto simp: image_Un)
  finally show ?case by simp
qed

lemma spread_append:
  "distinct (map fst a) \<Longrightarrow> distinct (map fst b) \<Longrightarrow> fst ` set a \<inter> fst ` set b = {} \<Longrightarrow>
   \<forall>k \<in> fst ` set a \<union> fst ` set b. arrayIndex k = None \<Longrightarrow> spread a b = a @ b"
  by (simp add: spread_def assign_append)

lemma map_of_filter_keys:
  "k \<notin> S \<Longrightarrow> map_of (filter (\<lambda>kv. fst kv \<notin> S) xs) k = map_of xs k"
  by (induction xs) auto

lemma map_of_map_snd:
  "map_of (map (\<lambda>kv. (fst kv, f (snd kv))) xs) k = map_option f (map_of xs k)"
  by (induction xs) auto

lemma reorder_loop:
  "set names \<inter> set objectPrototype = {} \<Longrightarrow>
   \<forall>k \<in> fst ` set flds. arrayIndex k = None \<Longrightarrow>
   fst ` set ordered \<inter> fst ` set flds = {} \<Longrightarrow>
   foldl reorderStep (ordered, flds) names =
     (ordered @ map (\<lambda>n. (n, Own (the (map_of flds n))))
                  (firstOccurrences (filter (\<lambda>n. n \<in> fst ` set flds) names)),
      filter (\<lambda>kv. fst kv \<notin> set names) flds)"
proof (induction names arbitrary: ordered flds)
  case Nil
  then show ?case by simp
next
  case (Cons n names)
  have np: "n \<notin> set objectPrototype" and rest: "set names \<inter> set objectPrototype = {}"
    using Cons.prems(1) by auto
  show ?case
  proof (cases "map_of flds n")
    case None
    then have n: "n \<notin> fst ` set flds" by (simp add: map_of_eq_None_iff)
    have "filter (\<lambda>kv. fst kv \<notin> set names) flds = filter (\<lambda>kv. fst kv \<noteq> n \<and> fst kv \<notin> set names) flds"
      using n by (intro filter_cong) auto
    with None n np Cons.IH [OF rest Cons.prems(2,3)] show ?thesis
      by (simp add: reorderStep_def getProp_def)
  next
    case (Some fc)
    then have n: "n \<in> fst ` set flds" using map_of_eq_None_iff [of flds n] by auto
    then have no: "n \<notin> fst ` set ordered" using Cons.prems(3) by auto
    from n Cons.prems(2) have ni: "arrayIndex n = None" by auto
    from np have npr: "n \<noteq> ''__proto__''" by (auto simp: objectPrototype_def)
    have disj: "fst ` set (ordered @ [(n, Own fc)]) \<inter> fst ` set (AList.delete n flds) = {}"
      using Cons.prems(3) by (auto simp: AList.delete_eq)
    have idx: "\<forall>k \<in> fst ` set (AList.delete n flds). arrayIndex k = None"
      using Cons.prems(2) by (auto simp: AList.delete_eq)
    have keys: "\<And>m. m \<in> fst ` set (AList.delete n flds) \<longleftrightarrow> m \<in> fst ` set flds \<and> m \<noteq> n"
      by (auto simp: AList.delete_eq)
    have step: "reorderStep (ordered, flds) n = (ordered @ [(n, Own fc)], AList.delete n flds)"
      using Some no ni npr
      by (simp add: reorderStep_def getProp_def setProp_def defineKey_ordinary update_absent)
    have vals: "map (\<lambda>m. (m, Own (the (map_of (AList.delete n flds) m))))
                  (firstOccurrences (filter (\<lambda>m. m \<in> fst ` set flds \<and> m \<noteq> n) names)) =
                map (\<lambda>m. (m, Own (the (map_of flds m))))
                  (firstOccurrences (filter (\<lambda>m. m \<in> fst ` set flds \<and> m \<noteq> n) names))"
      by (intro map_cong) (auto simp: set_firstOccurrences delete_conv')
    have rest': "filter (\<lambda>kv. fst kv \<notin> set names) (AList.delete n flds) =
                filter (\<lambda>kv. fst kv \<noteq> n \<and> fst kv \<notin> set names) flds"
      by (auto simp: AList.delete_eq intro: filter_cong)
    have f2: "filter (\<lambda>y. y \<noteq> n) (filter (\<lambda>n. n \<in> fst ` set flds) names) =
              filter (\<lambda>m. m \<in> fst ` set flds \<and> m \<noteq> n) names"
      by (auto intro: filter_cong)
    show ?thesis
      using Cons.IH [OF rest idx disj] n Some
      by (simp add: step keys vals rest' f2)
  qed
qed

text \<open>
  For names of which none is a member of \<open>Object.prototype\<close>, on a field map without
  array indices among its keys: \<open>reorderFields\<close> puts the named fields that exist
  first, in the order given (a name given twice counts where it comes first), skips the
  names of no field, and lets the other fields follow in the order they had; every field
  keeps its config.
\<close>

lemma reorderFields_order:
  assumes "distinct (getFieldNames this)"
    and "set names \<inter> set objectPrototype = {}"
    and "\<forall>k \<in> set (getFieldNames this). arrayIndex k = None"
  shows "getFieldNames (reorderFields names this) =
           firstOccurrences (filter (\<lambda>n. n \<in> set (getFieldNames this)) names) @
           filter (\<lambda>k. k \<notin> set names) (getFieldNames this)"
    and "map_of (gqcFields (reorderFields names this)) k =
           map_option Own (map_of (gqcFields this) k)"
    and "typeName (reorderFields names this) = typeName this"
proof -
  let ?f = "gqcFields this"
  let ?L = "firstOccurrences (filter (\<lambda>n. n \<in> fst ` set ?f) names)"
  let ?A = "map (\<lambda>n. (n, Own (the (map_of ?f n)))) ?L"
  let ?B = "filter (\<lambda>kv. fst kv \<notin> set names) ?f"
  let ?B' = "map (\<lambda>kv. (fst kv, Own (snd kv))) ?B"
  have idx: "\<forall>k \<in> fst ` set ?f. arrayIndex k = None"
    using assms(3) by (simp add: getFieldNames_def)
  have loop: "foldl reorderStep ([], ?f) names = (?A, ?B)"
    using reorder_loop [OF assms(2) idx, of "[]"] by simp
  have dA: "distinct (map fst ?A)"
    by (simp add: comp_def distinct_firstOccurrences)
  have dB: "distinct (map fst ?B')"
    using assms(1) by (simp add: getFieldNames_def comp_def distinct_map_filter)
  have disj: "fst ` set ?A \<inter> fst ` set ?B' = {}"
    by (auto simp: set_firstOccurrences)
  have ord: "\<forall>k \<in> fst ` set ?A \<union> fst ` set ?B'. arrayIndex k = None"
    using idx by (auto simp: set_firstOccurrences)
  have res: "gqcFields (reorderFields names this) = ?A @ ?B'"
    by (simp add: reorderFields_def loop spread_append [OF dA dB disj ord])
  have k1: "map fst ?A = ?L" by (simp add: comp_def)
  have k2: "map fst ?B' = filter (\<lambda>k. k \<notin> set names) (map fst ?f)"
    by (simp add: filter_map comp_def)
  show "getFieldNames (reorderFields names this) =
           firstOccurrences (filter (\<lambda>n. n \<in> set (getFieldNames this)) names) @
           filter (\<lambda>k. k \<notin> set names) (getFieldNames this)"
    using k1 k2 by (simp add: getFieldNames_def res)
  show "typeName (reorderFields names this) = typeName this"
    by (simp add: reorderFields_def split: prod.splits)
  have mB: "map_of ?B' k = map_option Own (map_of ?B k)"
    by (rule map_of_map_snd)
  have "map_of (?A @ ?B') k = map_option Own (map_of ?f k)"
  proof (cases "k \<in> set ?L")
    case True
    then have "k \<in> fst ` set ?f" by (auto simp: set_firstOccurrences)
    then obtain v where v: "map_of ?f k = Some v"
      using map_of_eq_None_iff [of ?f k] by auto
    have "map_of ?A k = Some (Own (the (map_of ?f k)))"
      using True by (simp add: map_of_map_restrict restrict_map_def)
    with v show ?thesis by (simp add: map_add_def)
  next
    case False
    then have a: "map_of ?A k = None"
      by (simp add: map_of_eq_None_iff image_image)
    have "map_of ?B k = map_of ?f k"
    proof (cases "k \<in> set names")
      case True
      with False have "k \<notin> fst ` set ?f" by (auto simp: set_firstOccurrences)
      then have "map_of ?f k = None" by (simp add: map_of_eq_None_iff)
      moreover have "map_of ?B k = None"
        using True by (auto simp: map_of_eq_None_iff)
      ultimately show ?thesis by simp
    next
      case False
      then show ?thesis
        by (rule map_of_filter_keys)
    qed
    with a mB show ?thesis by (simp add: map_add_def)
  qed
  then show "map_of (gqcFields (reorderFields names this)) k =
           map_option Own (map_of (gqcFields this) k)"
    by (simp only: res)
qed

text \<open>The examples of the specification: \<open>['c']\<close> and \<open>['z']\<close> on \<open>a, b, c\<close>.\<close>

lemma reorderFields_examples:
  "getFieldNames abcExample = [''a'', ''b'', ''c'']"
  "getFieldNames (reorderFields [''c''] abcExample) = [''c'', ''a'', ''b'']"
  "getFieldNames (reorderFields [''z''] abcExample) = [''a'', ''b'', ''c'']"
  "getFieldNames (reorderFields [''z'', ''c'', ''y'', ''a'', ''c'', ''b''] abcExample) =
     [''c'', ''a'', ''b'']"
  by (simp_all add: getFieldNames_def reorderFields_def reorderStep_def getProp_def setProp_def
      defineKey_def objectPrototype_def abcExample_def spread_def assign_def arrayIndex_def
      isDigit_def AList.delete_eq)

text \<open>
  Claim C9.  On the fields \<open>a\<close>, \<open>b\<close>, \<open>c\<close>,
  \<open>reorderFields(['c', 'toString'])\<close> does not skip the name \<open>toString\<close>, which
  is the name of no field: the test \<open>fields[name]\<close> reads the member that the field
  map inherits from \<open>Object.prototype\<close>, and that member is stored in the new field
  map.  The order becomes \<open>c, toString, a, b\<close>, and \<open>toString\<close> holds the
  inherited function instead of a field config; the three fields keep their configs.
\<close>

theorem reorderFields_inherited_name:
  "getFieldNames abcExample = [''a'', ''b'', ''c''] \<and>
   getFieldNames (reorderFields [''c'', ''toString''] abcExample) =
     [''c'', ''toString'', ''a'', ''b''] \<and>
   gqcFields (reorderFields [''c'', ''toString''] abcExample) =
     [(''c'', Own (fieldOfType (NamedTC ''Int''))), (''toString'', Inherited ''toString''),
      (''a'', Own (fieldOfType (NamedTC ''Int''))), (''b'', Own (fieldOfType (NamedTC ''Int'')))]"
  by (simp add: getFieldNames_def reorderFields_def reorderStep_def getProp_def setProp_def
      defineKey_def objectPrototype_def abcExample_def spread_def assign_def arrayIndex_def
      isDigit_def AList.delete_eq)

section \<open>Asking for an argument: results\<close>

text \<open>\<open>hasFieldArg\<close> returns a boolean, whatever the names, and leaves the composer as it was.\<close>

lemma hasFieldArg_returns:
  "\<exists>b. hasFieldArg fieldName argName this = (Returned b, this)"
  by (auto simp: hasFieldArg_def getFieldArgs_def getField_def split: option.splits)

text \<open>
  For a name that the field map neither has nor inherits, \<open>getFieldArgs\<close> and
  \<open>getFieldArg\<close> throw and \<open>hasFieldArg\<close> returns \<open>false\<close>.
\<close>

lemma hasFieldArg_unknown_name:
  assumes "fieldName \<notin> set (getFieldNames this)" and "fieldName \<notin> set objectPrototype"
  shows "hasFieldArg fieldName argName this = (Returned False, this)"
    and "getFieldArgs fieldName this =
      (Threw (Error (''Cannot get args from '' @ quoted (typeName this @ ''.'' @ fieldName)
         @ ''. Field does not exist.'')), this)"
    and "getFieldArg fieldName argName this =
      (Threw (Error (''Cannot get args from '' @ quoted (typeName this @ ''.'' @ fieldName)
         @ ''. Field does not exist.'')), this)"
proof -
  from assms(1) have "map_of (gqcFields this) fieldName = None"
    by (simp add: getFieldNames_def map_of_eq_None_iff)
  with assms(2) have g: "getProp (gqcFields this) fieldName = None"
    by (simp add: getProp_def)
  show "hasFieldArg fieldName argName this = (Returned False, this)"
    by (simp add: hasFieldArg_def getFieldArgs_def getField_def g)
  show "getFieldArgs fieldName this =
      (Threw (Error (''Cannot get args from '' @ quoted (typeName this @ ''.'' @ fieldName)
         @ ''. Field does not exist.'')), this)"
    by (simp add: getFieldArgs_def getField_def g)
  show "getFieldArg fieldName argName this =
      (Threw (Error (''Cannot get args from '' @ quoted (typeName this @ ''.'' @ fieldName)
         @ ''. Field does not exist.'')), this)"
    by (simp add: getFieldArg_def getFieldArgs_def getField_def g)
qed

text \<open>For a field of the composer, the answer is the truthiness of the read from its \<open>args\<close>.\<close>

lemma hasFieldArg_of_field:
  "map_of (gqcFields this) fieldName = Some fc \<Longrightarrow>
   hasFieldArg fieldName argName this =
     (Returned (getProp (or_empty (fc_args fc)) argName \<noteq> None), this)"
  by (simp add: hasFieldArg_def getFieldArgs_def getField_def getProp_def)

text \<open>
  Claim C10.  On a composer whose only field is \<open>f\<close>,
  \<open>hasFieldArg('toString', 'constructor')\<close> returns \<open>true\<close>, although the
  composer has no field \<open>toString\<close>: \<open>getField('toString')\<close> reads the member
  that the field map inherits from \<open>Object.prototype\<close> and does not throw,
  \<open>getFieldArgs('toString')\<close> returns the empty object, and the read of
  \<open>constructor\<close> from the empty object gives an inherited member again, so that
  \<open>getFieldArg('toString', 'constructor')\<close> does not throw either.  The composer is
  left as it was.
\<close>

theorem hasFieldArg_inherited_name:
  "getFieldNames pluralArgsExample = [''f''] \<and>
   hasFieldArg ''toString'' ''constructor'' pluralArgsExample = (Returned True, pluralArgsExample) \<and>
   getField ''toString'' pluralArgsExample = (Returned (Inherited ''toString''), pluralArgsExample) \<and>
   getFieldArgs ''toString'' pluralArgsExample = (Returned [], pluralArgsExample) \<and>
   getFieldArg ''toString'' ''constructor'' pluralArgsExample =
     (Returned (Inherited ''constructor''), pluralArgsExample)"
  by (simp add: getFieldNames_def hasFieldArg_def getFieldArg_def getFieldArgs_def getField_def
      getProp_def objectPrototype_def or_empty_def pluralArgsExample_def)

section \<open>Extending and deprecating fields: results\<close>

subsection \<open>Extending a field\<close>

text \<open>
  For a name that the field map neither has nor inherits, \<open>extendField\<close> throws
  its error and leaves the composer as it was.
\<close>

lemma extendField_unknown_name:
  assumes "fieldName \<notin> set (getFieldNames this)" and "fieldName \<notin> set objectPrototype"
  shows "extendField tm fieldName partialFieldConfig this =
        (Threw (Error (''Cannot extend field '' @ quoted fieldName @ '' from type ''
           @ quoted (typeName this) @ ''. Field does not exist.'')), this)"
proof -
  from assms(1) have "map_of (gqcFields this) fieldName = None"
    by (simp add: getFieldNames_def map_of_eq_None_iff)
  with assms(2) have "getProp (gqcFields this) fieldName = None"
    by (simp add: getProp_def)
  then show ?thesis by (simp add: extendField_def getField_def)
qed

text \<open>
  For a field of the composer, the type mapper gets the merge of the partial config over
  the field's config, and what it returns is stored under the same name at the same
  place; if it throws, nothing is stored.
\<close>

lemma extendField_of_field:
  assumes prev: "map_of (gqcFields this) fieldName = Some prev"
  shows "extendField tm fieldName partialFieldConfig this =
        (case tm (extendedConfig (Own prev) partialFieldConfig) of
           Threw e \<Rightarrow> (Threw e, this)
         | Returned fc \<Rightarrow>
             (Returned (), this\<lparr>gqcFields := AList.update fieldName fc (gqcFields this)\<rparr>))"
    and "getFieldNames (snd (extendField tm fieldName partialFieldConfig this)) = getFieldNames this"
proof -
  show run: "extendField tm fieldName partialFieldConfig this =
        (case tm (extendedConfig (Own prev) partialFieldConfig) of
           Threw e \<Rightarrow> (Threw e, this)
         | Returned fc \<Rightarrow>
             (Returned (), this\<lparr>gqcFields := AList.update fieldName fc (gqcFields this)\<rparr>))"
    using prev
    by (simp add: extendField_def getField_def getProp_def setField_def setProp_own
        split: outcome.splits)
  have "fieldName \<in> set (map fst (gqcFields this))"
    using prev map_of_eq_None_iff [of "gqcFields this" fieldName] by auto
  then show "getFieldNames (snd (extendField tm fieldName partialFieldConfig this)) =
      getFieldNames this"
    by (simp add: run getFieldNames_def update_keys split: outcome.splits)
qed

text \<open>
  The merge: each key that the partial config has wins; \<open>extensions\<close> holds the
  keys of both, with the partial's value where both have the key.
\<close>

lemma extendedConfig_of_field:
  "fd_type (extendedConfig (Own prev) partialFieldConfig) =
     (case fp_type partialFieldConfig of
        Present t \<Rightarrow> t | Absent \<Rightarrow> TypeAsComposer (fc_type prev))"
  "fd_args (extendedConfig (Own prev) partialFieldConfig) =
     (case fp_args partialFieldConfig of
        Present a \<Rightarrow> a
      | Absent \<Rightarrow> map_option (map (\<lambda>kv. (fst kv, ArgAsConfig (snd kv)))) (fc_args prev))"
  "fd_deprecationReason (extendedConfig (Own prev) partialFieldConfig) =
     (case fp_deprecationReason partialFieldConfig of
        Present r \<Rightarrow> r | Absent \<Rightarrow> fc_deprecationReason prev)"
  "fd_description (extendedConfig (Own prev) partialFieldConfig) =
     (case fp_description partialFieldConfig of
        Present d \<Rightarrow> d | Absent \<Rightarrow> fc_description prev)"
  by (simp_all add: extendedConfig_def split: opt_key.splits)

lemma extendedConfig_extensions:
  assumes "distinct (map fst (or_empty (fc_extensions prev)))"
    and "distinct (map fst (or_empty (fp_extensions partialFieldConfig)))"
  shows "\<exists>ext. fd_extensions (extendedConfig (Own prev) partialFieldConfig) = Some ext \<and>
            (\<forall>k. map_of ext k =
               (case map_of (or_empty (fp_extensions partialFieldConfig)) k of
                  Some v \<Rightarrow> Some v
                | None \<Rightarrow> map_of (or_empty (fc_extensions prev)) k))"
  using assms by (simp add: extendedConfig_def map_of_spread)

lemma extendedConfig_rest:
  assumes "distinct (map fst (fc_rest prev))"
    and "distinct (map fst (fp_rest partialFieldConfig))"
  shows "map_of (fd_rest (extendedConfig (Own prev) partialFieldConfig)) k =
            (case map_of (fp_rest partialFieldConfig) k of
               Some v \<Rightarrow> Some v | None \<Rightarrow> map_of (fc_rest prev) k)"
  using assms by (simp add: extendedConfig_def map_of_spread)

lemma extendField_extensions_example:
  "extendField sampleTypeMapper ''field3'' extensionsPartial extensionsExample =
     (Returned (),
      \<lparr>typeName = ''MyType'',
       gqcFields =
         [(''field1'', fieldOfType (NamedTC ''String'')),
          (''field3'', (fieldOfType (NamedTC ''String''))
             \<lparr>fc_description := JStr ''this is field #3'',
              fc_extensions := Some [(''first'', JBool True), (''shared'', JNum 2),
                                     (''second'', JBool True)]\<rparr>)]\<rparr>)"
  by (simp add: extendField_def getField_def getProp_def setField_def setProp_def defineKey_def
      sampleTypeMapper_def extendedConfig_def extensionsPartial_def
      extensionsExample_def fieldOfType_def spread_def assign_def or_empty_def
      arrayIndex_def isDigit_def)

text \<open>
  Claim C8.  On a composer with the fields \<open>a\<close>, \<open>b\<close> and \<open>c\<close>,
  \<open>extendField('constructor', { type: 'Int' })\<close> does not throw the error of a
  missing field: \<open>getField('constructor')\<close> reads the member that the field map
  inherits from \<open>Object.prototype\<close>, and the call goes on to \<open>setField\<close>
  with a merge that takes nothing from that member, whatever the type mapper and the
  partial config.  With the type mapper of the examples, which reads \<open>'Int'\<close> as
  the name of a type, the result is stored as a new field \<open>constructor\<close> after
  the three fields.
\<close>

theorem extendField_inherited_name:
  "getFieldNames abcExample = [''a'', ''b'', ''c''] \<and>
   extendField tm ''constructor'' partialFieldConfig abcExample =
     setField tm ''constructor''
       (extendedConfig (Inherited ''constructor'') partialFieldConfig) abcExample \<and>
   extendField sampleTypeMapper ''constructor'' intPartial abcExample =
     (Returned (),
      abcExample\<lparr>gqcFields := gqcFields abcExample @
         [(''constructor'', (fieldOfType (NamedTC ''Int''))\<lparr>fc_extensions := Some []\<rparr>)]\<rparr>) \<and>
   getFieldNames (snd (extendField sampleTypeMapper ''constructor'' intPartial abcExample)) =
     [''a'', ''b'', ''c'', ''constructor'']"
  by (simp add: getFieldNames_def extendField_def getField_def getProp_def objectPrototype_def
      setField_def setProp_def defineKey_def arrayIndex_def isDigit_def
      sampleTypeMapper_def extendedConfig_def intPartial_def abcExample_def fieldOfType_def
      spread_def assign_def or_empty_def)

subsection \<open>Deprecating fields\<close>

lemma extendField_deprecation:
  assumes tm: "\<forall>fd t. fd_type fd = TypeAsComposer t \<longrightarrow>
            (\<exists>fc. tm fd = Returned fc \<and> fc_deprecationReason fc = fd_deprecationReason fd)"
    and f: "f \<in> set (getFieldNames this)"
  shows "\<exists>fc. extendField tm f (deprecation r) this =
           (Returned (), this\<lparr>gqcFields := AList.update f fc (gqcFields this)\<rparr>) \<and>
         fc_deprecationReason fc = r"
proof -
  from f obtain prev where prev: "map_of (gqcFields this) f = Some prev"
    using map_of_eq_None_iff [of "gqcFields this" f] by (auto simp: getFieldNames_def)
  have "fd_type (extendedConfig (Own prev) (deprecation r)) = TypeAsComposer (fc_type prev)"
    by (simp add: extendedConfig_def deprecation_def)
  with tm obtain fc where fc: "tm (extendedConfig (Own prev) (deprecation r)) = Returned fc"
    "fc_deprecationReason fc = fd_deprecationReason (extendedConfig (Own prev) (deprecation r))"
    by blast
  have "fd_deprecationReason (extendedConfig (Own prev) (deprecation r)) = r"
    by (simp add: extendedConfig_def deprecation_def)
  with prev fc have "extendField tm f (deprecation r) this =
           (Returned (), this\<lparr>gqcFields := AList.update f fc (gqcFields this)\<rparr>) \<and>
         fc_deprecationReason fc = r"
    by (simp add: extendField_def getField_def getProp_def setField_def setProp_own)
  then show ?thesis by blast
qed

lemma deprecateEach_stops:
  assumes tm: "\<forall>fd t. fd_type fd = TypeAsComposer t \<longrightarrow>
            (\<exists>fc. tm fd = Returned fc \<and> fc_deprecationReason fc = fd_deprecationReason fd)"
    and bad: "bad \<notin> set existed"
  shows "fst ` set pre \<subseteq> set existed \<Longrightarrow> existed = getFieldNames this \<Longrightarrow>
         \<exists>this'. deprecateEach tm existed (pre @ (bad, r) # post) this =
                   (Threw (cannotDeprecate bad this), this') \<and>
                 getFieldNames this' = getFieldNames this \<and>
                 (\<forall>f. map_of (rev pre) f = None \<longrightarrow>
                    map_of (gqcFields this') f = map_of (gqcFields this) f) \<and>
                 (\<forall>f reason. map_of (rev pre) f = Some reason \<longrightarrow>
                    deprecationReasonOf f this' = Some reason)"
proof (induction pre arbitrary: this)
  case Nil
  then show ?case using bad by (simp add: deprecateOne_def)
next
  case (Cons fr pre)
  obtain f0 r0 where fr: "fr = (f0, r0)" by (cases fr)
  from Cons.prems fr have f0: "f0 \<in> set (getFieldNames this)" by simp
  from extendField_deprecation [OF tm f0, where r = r0] obtain fc0 where
    ext: "extendField tm f0 (deprecation r0) this =
            (Returned (), this\<lparr>gqcFields := AList.update f0 fc0 (gqcFields this)\<rparr>)"
    and r0: "fc_deprecationReason fc0 = r0" by blast
  let ?this1 = "this\<lparr>gqcFields := AList.update f0 fc0 (gqcFields this)\<rparr>"
  have keys1: "getFieldNames ?this1 = getFieldNames this"
    using f0 by (simp add: getFieldNames_def update_keys)
  have "fst ` set pre \<subseteq> set existed" using Cons.prems by simp
  moreover have "existed = getFieldNames ?this1" using Cons.prems keys1 by simp
  ultimately obtain this' where
    run: "deprecateEach tm existed (pre @ (bad, r) # post) ?this1 =
            (Threw (cannotDeprecate bad ?this1), this')"
    and keys: "getFieldNames this' = getFieldNames ?this1"
    and other: "\<forall>f. map_of (rev pre) f = None \<longrightarrow>
                    map_of (gqcFields this') f = map_of (gqcFields ?this1) f"
    and reasons: "\<forall>f reason. map_of (rev pre) f = Some reason \<longrightarrow>
                    deprecationReasonOf f this' = Some reason"
    using Cons.IH [of ?this1] by blast
  have step: "deprecateEach tm existed ((fr # pre) @ (bad, r) # post) this =
              (Threw (cannotDeprecate bad this), this')"
    using f0 Cons.prems ext run fr by (simp add: deprecateOne_def cannotDeprecate_def)
  have o: "\<forall>f. map_of (rev (fr # pre)) f = None \<longrightarrow>
             map_of (gqcFields this') f = map_of (gqcFields this) f"
  proof (intro allI impI)
    fix f
    assume a: "map_of (rev (fr # pre)) f = None"
    then have "map_of (rev pre) f = None" "f \<noteq> f0"
      using fr by (auto simp: map_add_def split: option.splits if_splits)
    then show "map_of (gqcFields this') f = map_of (gqcFields this) f"
      using other by (simp add: update_conv')
  qed
  have rs: "\<forall>f reason. map_of (rev (fr # pre)) f = Some reason \<longrightarrow>
                    deprecationReasonOf f this' = Some reason"
  proof (intro allI impI)
    fix f reason
    assume a: "map_of (rev (fr # pre)) f = Some reason"
    show "deprecationReasonOf f this' = Some reason"
    proof (cases "map_of (rev pre) f")
      case (Some x)
      with a have "x = reason" by (simp add: map_add_def)
      with Some reasons show ?thesis by simp
    next
      case None
      with a fr have "f = f0" "reason = r0"
        by (auto simp: map_add_def split: if_splits)
      moreover have "map_of (gqcFields this') f = map_of (gqcFields ?this1) f"
        using other None by simp
      ultimately show ?thesis
        using r0 by (simp add: deprecationReasonOf_def update_conv')
    qed
  qed
  from step keys keys1 o rs show ?case by auto
qed

lemma map_of_rev_const:
  "map_of (rev (map (\<lambda>f. (f, g f)) fs)) f = (if f \<in> set fs then Some (g f) else None)"
  by (induction fs) (auto simp: map_add_def)

text \<open>
  Claim C3, as amended.  \<open>deprecateFields\<close> throws the unknown-field error at the
  first name that is not a field.  A single unknown name changes nothing.  In a list or
  a map, the fields named before the unknown name have been deprecated by then (with
  \<open>'deprecated'\<close>, or with the reason the map gives), and every other field is as
  it was.  The type mapper is one that accepts a definition whose type is a composer and
  keeps its deprecation reason.
\<close>

theorem deprecateFields_stops_at_unknown:
  assumes "\<forall>fd t. fd_type fd = TypeAsComposer t \<longrightarrow>
            (\<exists>fc. tm fd = Returned fc \<and> fc_deprecationReason fc = fd_deprecationReason fd)"
    and "bad \<notin> set (getFieldNames this)"
    and "set pre \<subseteq> set (getFieldNames this)"
    and "fst ` set mpre \<subseteq> set (getFieldNames this)"
  shows "deprecateFields tm (FieldName bad) this = (Threw (cannotDeprecate bad this), this) \<and>
    (\<exists>this'. deprecateFields tm (FieldNames (pre @ bad # post)) this =
               (Threw (cannotDeprecate bad this), this') \<and>
             getFieldNames this' = getFieldNames this \<and>
             (\<forall>f. f \<in> set pre \<longrightarrow> deprecationReasonOf f this' = Some (JStr ''deprecated'')) \<and>
             (\<forall>f. f \<notin> set pre \<longrightarrow> map_of (gqcFields this') f = map_of (gqcFields this) f)) \<and>
    (\<exists>this'. deprecateFields tm (FieldMap (mpre @ (bad, reason) # mpost)) this =
               (Threw (cannotDeprecate bad this), this') \<and>
             getFieldNames this' = getFieldNames this \<and>
             (\<forall>f. f \<in> fst ` set mpre \<longrightarrow>
                deprecationReasonOf f this' =
                  map_option JStr (map_of (mpre @ (bad, reason) # mpost) f)) \<and>
             (\<forall>f. f \<notin> fst ` set mpre \<longrightarrow>
                map_of (gqcFields this') f = map_of (gqcFields this) f))"
proof (intro conjI)
  show "deprecateFields tm (FieldName bad) this = (Threw (cannotDeprecate bad this), this)"
    using assms(2) by (simp add: deprecateFields_def deprecateOne_def)
next
  let ?g = "\<lambda>f::string. JStr ''deprecated''"
  let ?pre = "map (\<lambda>f. (f, ?g f)) pre"
  have "fst ` set ?pre \<subseteq> set (getFieldNames this)"
    using assms(3) by (auto simp: image_image)
  from deprecateEach_stops [OF assms(1) assms(2) this refl, where r = "JStr ''deprecated''"
      and post = "map (\<lambda>f. (f, ?g f)) post"]
  obtain this' where
    run: "deprecateEach tm (getFieldNames this)
            (?pre @ (bad, JStr ''deprecated'') # map (\<lambda>f. (f, ?g f)) post) this =
          (Threw (cannotDeprecate bad this), this')"
    and keys: "getFieldNames this' = getFieldNames this"
    and other: "\<forall>f. map_of (rev ?pre) f = None \<longrightarrow>
                  map_of (gqcFields this') f = map_of (gqcFields this) f"
    and reasons: "\<forall>f r. map_of (rev ?pre) f = Some r \<longrightarrow> deprecationReasonOf f this' = Some r"
    by blast
  have "deprecateFields tm (FieldNames (pre @ bad # post)) this =
          (Threw (cannotDeprecate bad this), this')"
    using run by (simp add: deprecateFields_def)
  moreover have "\<forall>f. f \<in> set pre \<longrightarrow> deprecationReasonOf f this' = Some (JStr ''deprecated'')"
    using reasons by (simp add: map_of_rev_const)
  moreover have "\<forall>f. f \<notin> set pre \<longrightarrow> map_of (gqcFields this') f = map_of (gqcFields this) f"
    using other by (simp add: map_of_rev_const)
  ultimately show "\<exists>this'. deprecateFields tm (FieldNames (pre @ bad # post)) this =
               (Threw (cannotDeprecate bad this), this') \<and>
             getFieldNames this' = getFieldNames this \<and>
             (\<forall>f. f \<in> set pre \<longrightarrow> deprecationReasonOf f this' = Some (JStr ''deprecated'')) \<and>
             (\<forall>f. f \<notin> set pre \<longrightarrow> map_of (gqcFields this') f = map_of (gqcFields this) f)"
    using keys by blast
next
  let ?m = "mpre @ (bad, reason) # mpost"
  let ?g = "\<lambda>f. case map_of ?m f of None \<Rightarrow> JUndefined | Some reason \<Rightarrow> JStr reason"
  let ?pre = "map (\<lambda>f. (f, ?g f)) (map fst mpre)"
  have "fst ` set ?pre \<subseteq> set (getFieldNames this)"
    using assms(4) by (auto simp: image_image)
  from deprecateEach_stops [OF assms(1) assms(2) this refl, where r = "?g bad"
      and post = "map (\<lambda>f. (f, ?g f)) (map fst mpost)"]
  obtain this' where
    run: "deprecateEach tm (getFieldNames this)
            (?pre @ (bad, ?g bad) # map (\<lambda>f. (f, ?g f)) (map fst mpost)) this =
          (Threw (cannotDeprecate bad this), this')"
    and keys: "getFieldNames this' = getFieldNames this"
    and other: "\<forall>f. map_of (rev ?pre) f = None \<longrightarrow>
                  map_of (gqcFields this') f = map_of (gqcFields this) f"
    and reasons: "\<forall>f r. map_of (rev ?pre) f = Some r \<longrightarrow> deprecationReasonOf f this' = Some r"
    by blast
  have "deprecateFields tm (FieldMap ?m) this = (Threw (cannotDeprecate bad this), this')"
    using run by (simp add: deprecateFields_def)
  moreover have "\<forall>f. f \<in> fst ` set mpre \<longrightarrow>
      deprecationReasonOf f this' = map_option JStr (map_of ?m f)"
  proof (intro allI impI)
    fix f
    assume f: "f \<in> fst ` set mpre"
    then obtain v where "map_of mpre f = Some v"
      using map_of_eq_None_iff [of mpre f] by auto
    then have "map_of ?m f = Some v" by (simp add: map_add_def)
    moreover have "map_of (rev ?pre) f = Some (?g f)"
      using f by (simp only: map_of_rev_const) simp
    ultimately show "deprecationReasonOf f this' = map_option JStr (map_of ?m f)"
      using reasons by simp
  qed
  moreover have "\<forall>f. f \<notin> fst ` set mpre \<longrightarrow>
      map_of (gqcFields this') f = map_of (gqcFields this) f"
  proof (intro allI impI)
    fix f
    assume "f \<notin> fst ` set mpre"
    then have "map_of (rev ?pre) f = None"
      by (simp only: map_of_rev_const) simp
    with other show "map_of (gqcFields this') f = map_of (gqcFields this) f" by blast
  qed
  ultimately show "\<exists>this'. deprecateFields tm (FieldMap ?m) this =
               (Threw (cannotDeprecate bad this), this') \<and>
             getFieldNames this' = getFieldNames this \<and>
             (\<forall>f. f \<in> fst ` set mpre \<longrightarrow>
                deprecationReasonOf f this' = map_option JStr (map_of ?m f)) \<and>
             (\<forall>f. f \<notin> fst ` set mpre \<longrightarrow>
                map_of (gqcFields this') f = map_of (gqcFields this) f)"
    using keys by blast
qed

theorem deprecateFields_stops_at_unknown_witness:
  "deprecateFields sampleTypeMapper (FieldName ''zzz'') abcExample =
     (Threw (Error (''Cannot deprecate unexisted field 'zzz' from type '' @ quoted ''MyType'')),
      abcExample) \<and>
   (\<exists>this'. deprecateFields sampleTypeMapper (FieldNames [''a'', ''b'', ''zzz'', ''c'']) abcExample =
       (Threw (Error (''Cannot deprecate unexisted field 'zzz' from type '' @ quoted ''MyType'')),
        this') \<and>
      deprecationReasonOf ''a'' this' = Some (JStr ''deprecated'') \<and>
      deprecationReasonOf ''b'' this' = Some (JStr ''deprecated'') \<and>
      deprecationReasonOf ''c'' this' = Some JUndefined) \<and>
   (\<exists>this'. deprecateFields sampleTypeMapper
         (FieldMap [(''b'', ''old field''), (''zzz'', ''no field''), (''a'', ''dont use'')]) abcExample =
       (Threw (Error (''Cannot deprecate unexisted field 'zzz' from type '' @ quoted ''MyType'')),
        this') \<and>
      deprecationReasonOf ''b'' this' = Some (JStr ''old field'') \<and>
      deprecationReasonOf ''a'' this' = Some JUndefined)"
proof -
  have tm: "\<forall>fd t. fd_type fd = TypeAsComposer t \<longrightarrow>
      (\<exists>fc. sampleTypeMapper fd = Returned fc \<and>
           fc_deprecationReason fc = fd_deprecationReason fd)"
    by (simp add: sampleTypeMapper_def)
  have bad: "''zzz'' \<notin> set (getFieldNames abcExample)"
    and pre: "set [''a'', ''b''] \<subseteq> set (getFieldNames abcExample)"
    and mpre: "fst ` set [(''b'', ''old field'')] \<subseteq> set (getFieldNames abcExample)"
    by (simp_all add: getFieldNames_def abcExample_def)
  have e: "cannotDeprecate ''zzz'' abcExample =
      Error (''Cannot deprecate unexisted field 'zzz' from type '' @ quoted ''MyType'')"
    by (simp add: cannotDeprecate_def quoted_def abcExample_def)
  have r: "map_of (gqcFields abcExample) ''c'' = Some (fieldOfType (NamedTC ''Int''))"
    "map_of (gqcFields abcExample) ''a'' = Some (fieldOfType (NamedTC ''Int''))"
    by (simp_all add: abcExample_def)
  note t = deprecateFields_stops_at_unknown [OF tm bad pre mpre,
      where post = "[''c'']" and reason = "''no field''" and mpost = "[(''a'', ''dont use'')]"]
  from t have 1: "deprecateFields sampleTypeMapper (FieldName ''zzz'') abcExample =
     (Threw (Error (''Cannot deprecate unexisted field 'zzz' from type '' @ quoted ''MyType'')),
      abcExample)"
    by (simp add: e)
  from t obtain s1 where s1:
    "deprecateFields sampleTypeMapper (FieldNames ([''a'', ''b''] @ ''zzz'' # [''c''])) abcExample =
       (Threw (cannotDeprecate ''zzz'' abcExample), s1)"
    "\<forall>f. f \<in> set [''a'', ''b''] \<longrightarrow> deprecationReasonOf f s1 = Some (JStr ''deprecated'')"
    "\<forall>f. f \<notin> set [''a'', ''b''] \<longrightarrow> map_of (gqcFields s1) f = map_of (gqcFields abcExample) f"
    by blast
  from s1(3) have "map_of (gqcFields s1) ''c'' = map_of (gqcFields abcExample) ''c''"
    by simp
  then have c: "deprecationReasonOf ''c'' s1 = Some JUndefined"
    by (simp add: deprecationReasonOf_def r fieldOfType_def)
  from s1 c have 2: "\<exists>this'. deprecateFields sampleTypeMapper
         (FieldNames [''a'', ''b'', ''zzz'', ''c'']) abcExample =
       (Threw (Error (''Cannot deprecate unexisted field 'zzz' from type '' @ quoted ''MyType'')),
        this') \<and>
      deprecationReasonOf ''a'' this' = Some (JStr ''deprecated'') \<and>
      deprecationReasonOf ''b'' this' = Some (JStr ''deprecated'') \<and>
      deprecationReasonOf ''c'' this' = Some JUndefined"
    by (intro exI [of _ s1]) (simp add: e)
  from t obtain s2 where s2:
    "deprecateFields sampleTypeMapper
       (FieldMap ([(''b'', ''old field'')] @ (''zzz'', ''no field'') # [(''a'', ''dont use'')]))
       abcExample = (Threw (cannotDeprecate ''zzz'' abcExample), s2)"
    "\<forall>f. f \<in> fst ` set [(''b'', ''old field'')] \<longrightarrow>
       deprecationReasonOf f s2 =
         map_option JStr
           (map_of ([(''b'', ''old field'')] @ (''zzz'', ''no field'') # [(''a'', ''dont use'')]) f)"
    "\<forall>f. f \<notin> fst ` set [(''b'', ''old field'')] \<longrightarrow>
       map_of (gqcFields s2) f = map_of (gqcFields abcExample) f"
    by blast
  from s2(3) have "map_of (gqcFields s2) ''a'' = map_of (gqcFields abcExample) ''a''"
    by simp
  then have a: "deprecationReasonOf ''a'' s2 = Some JUndefined"
    by (simp add: deprecationReasonOf_def r fieldOfType_def)
  from s2(2) have b: "deprecationReasonOf ''b'' s2 = Some (JStr ''old field'')"
    by simp
  from s2(1) a b have 3: "\<exists>this'. deprecateFields sampleTypeMapper
         (FieldMap [(''b'', ''old field''), (''zzz'', ''no field''), (''a'', ''dont use'')]) abcExample =
       (Threw (Error (''Cannot deprecate unexisted field 'zzz' from type '' @ quoted ''MyType'')),
        this') \<and>
      deprecationReasonOf ''b'' this' = Some (JStr ''old field'') \<and>
      deprecationReasonOf ''a'' this' = Some JUndefined"
    by (intro exI [of _ s2]) (simp add: e)
  from 1 2 3 show ?thesis by blast
qed

theorem deprecateFields_counterexample:
  "deprecationReasonOf ''a'' abcExample = Some JUndefined \<and>
   fst (deprecateFields sampleTypeMapper (FieldNames [''a'', ''zzz'']) abcExample) =
     Threw (Error (''Cannot deprecate unexisted field 'zzz' from type '' @ quoted ''MyType'')) \<and>
   deprecationReasonOf ''a''
     (snd (deprecateFields sampleTypeMapper (FieldNames [''a'', ''zzz'']) abcExample)) =
     Some (JStr ''deprecated'')"
  by (simp add: deprecateFields_def deprecateOne_def extendField_def getField_def getProp_def
      setField_def setProp_def defineKey_def
      extendedConfig_def deprecation_def sampleTypeMapper_def cannotDeprecate_def quoted_def
      getFieldNames_def deprecationReasonOf_def abcExample_def fieldOfType_def
      spread_def assign_def or_empty_def)

section \<open>Relations: results\<close>

subsection \<open>The loop over prepareArgs and the call\<close>

lemma prepareArg_cases:
  "prepareArg pa (c, p, r) k =
     (case map_of pa k of
        None \<Rightarrow> (c, p, r)
      | Some (MapperFn fn) \<Rightarrow> (AList.delete k c, p, r @ [(k, fn)])
      | Some (MapperVal v) \<Rightarrow>
          if v = JUndefined then (c, p, r)
          else if v = JNull then (AList.delete k c, p, r)
          else (AList.delete k c, setProp k v p, r))"
  by (auto simp: prepareArg_def split: option.splits arg_map_val.splits jsval.splits)

lemma prepare_loop:
  assumes "distinct ks" and "fst ` set r \<inter> set ks = {}"
    and "distinct (map fst r)" and "distinct (map fst p)"
  shows "\<exists>c' p' r'. foldl (prepareArg pa) (c, p, r) ks = (c', p', r') \<and>
      c' = filter (\<lambda>kv. \<not> (fst kv \<in> set ks \<and>
              (case map_of pa (fst kv) of None \<Rightarrow> False | Some v \<Rightarrow> v \<noteq> MapperVal JUndefined))) c \<and>
      distinct (map fst p') \<and> distinct (map fst r') \<and>
      (\<forall>k. k \<noteq> ''__proto__'' \<longrightarrow> map_of p' k =
         (if k \<in> set ks
          then (case map_of pa k of
                  Some (MapperVal v) \<Rightarrow> (if v = JUndefined \<or> v = JNull then map_of p k else Some v)
                | _ \<Rightarrow> map_of p k)
          else map_of p k)) \<and>
      (\<forall>k. map_of r' k =
         (if k \<in> set ks
          then (case map_of pa k of Some (MapperFn fn) \<Rightarrow> Some fn | _ \<Rightarrow> map_of r k)
          else map_of r k))"
  using assms
proof (induction ks arbitrary: c p r)
  case Nil
  then show ?case by simp
next
  case (Cons k ks)
  obtain c1 p1 r1 where step: "prepareArg pa (c, p, r) k = (c1, p1, r1)"
    by (cases "prepareArg pa (c, p, r) k") auto
  have kr: "k \<notin> fst ` set r" using Cons.prems(2) by auto
  then have kr': "\<And>v. (k, v) \<notin> set r" by force
  from kr have krm: "map_of r k = None" by (simp add: map_of_eq_None_iff)
  have c1: "c1 = filter (\<lambda>kv. \<not> (fst kv = k \<and>
              (case map_of pa (fst kv) of None \<Rightarrow> False | Some v \<Rightarrow> v \<noteq> MapperVal JUndefined))) c"
    using step
    by (auto simp: prepareArg_cases AList.delete_eq case_prod_unfold
        split: option.splits arg_map_val.splits if_splits intro!: filter_cong)
  have p1: "distinct (map fst p1)"
    "\<And>k'. k' \<noteq> ''__proto__'' \<Longrightarrow> map_of p1 k' =
         (if k' = k
          then (case map_of pa k' of
                  Some (MapperVal v) \<Rightarrow> (if v = JUndefined \<or> v = JNull then map_of p k' else Some v)
                | _ \<Rightarrow> map_of p k')
          else map_of p k')"
    using step Cons.prems(4)
    by (auto simp: prepareArg_cases map_of_setProp_other distinct_setProp
        split: option.splits arg_map_val.splits if_splits)
  have r1: "distinct (map fst r1)" "fst ` set r1 \<subseteq> insert k (fst ` set r)"
    "\<And>k'. map_of r1 k' =
         (if k' = k
          then (case map_of pa k' of Some (MapperFn fn) \<Rightarrow> Some fn | _ \<Rightarrow> map_of r k')
          else map_of r k')"
    using step Cons.prems(3) kr kr' krm
    by (auto simp: prepareArg_cases map_add_def
        split: option.splits arg_map_val.splits if_splits)
  have "distinct ks" "fst ` set r1 \<inter> set ks = {}"
    using Cons.prems(1,2) r1(2) by auto
  from Cons.IH [OF this r1(1) p1(1), of c1] obtain c' p' r' where
    loop: "foldl (prepareArg pa) (c1, p1, r1) ks = (c', p', r')"
    and c': "c' = filter (\<lambda>kv. \<not> (fst kv \<in> set ks \<and>
              (case map_of pa (fst kv) of None \<Rightarrow> False | Some v \<Rightarrow> v \<noteq> MapperVal JUndefined))) c1"
    and d: "distinct (map fst p')" "distinct (map fst r')"
    and p': "\<forall>k'. k' \<noteq> ''__proto__'' \<longrightarrow> map_of p' k' =
         (if k' \<in> set ks
          then (case map_of pa k' of
                  Some (MapperVal v) \<Rightarrow> (if v = JUndefined \<or> v = JNull then map_of p1 k' else Some v)
                | _ \<Rightarrow> map_of p1 k')
          else map_of p1 k')"
    and r': "\<forall>k'. map_of r' k' =
         (if k' \<in> set ks
          then (case map_of pa k' of Some (MapperFn fn) \<Rightarrow> Some fn | _ \<Rightarrow> map_of r1 k')
          else map_of r1 k')"
    by blast
  have kk: "k \<notin> set ks" using Cons.prems(1) by simp
  have "foldl (prepareArg pa) (c, p, r) (k # ks) = (c', p', r')"
    using step loop by simp
  moreover have "c' = filter (\<lambda>kv. \<not> (fst kv \<in> set (k # ks) \<and>
              (case map_of pa (fst kv) of None \<Rightarrow> False | Some v \<Rightarrow> v \<noteq> MapperVal JUndefined))) c"
    unfolding c' c1 by (auto intro!: filter_cong)
  moreover have "\<forall>k'. k' \<noteq> ''__proto__'' \<longrightarrow> map_of p' k' =
         (if k' \<in> set (k # ks)
          then (case map_of pa k' of
                  Some (MapperVal v) \<Rightarrow> (if v = JUndefined \<or> v = JNull then map_of p k' else Some v)
                | _ \<Rightarrow> map_of p k')
          else map_of p k')"
    using p' p1(2) kk by (auto split: option.splits arg_map_val.splits)
  moreover have "\<forall>k'. map_of r' k' =
         (if k' \<in> set (k # ks)
          then (case map_of pa k' of Some (MapperFn fn) \<Rightarrow> Some fn | _ \<Rightarrow> map_of r k')
          else map_of r k')"
    using r' r1(3) kk by (auto split: option.splits arg_map_val.splits)
  ultimately show ?case using d by blast
qed

lemma runMappers_returns:
  assumes "distinct (map fst rs)"
    and "\<forall>k fn. map_of rs k = Some fn \<longrightarrow> (\<exists>v. fn source args context info = Returned v)"
  shows "\<exists>newArgs'. runMappers rs source args context info newArgs = Returned newArgs' \<and>
           (\<forall>k. k \<noteq> ''__proto__'' \<longrightarrow> map_of newArgs' k =
              (case map_of rs k of
                 Some fn \<Rightarrow> (case fn source args context info of
                               Returned v \<Rightarrow> Some v | Threw e \<Rightarrow> None)
               | None \<Rightarrow> map_of newArgs k))"
  using assms
proof (induction rs arbitrary: newArgs)
  case Nil
  then show ?case by simp
next
  case (Cons m rs)
  obtain k fn where m: "m = (k, fn)" by (cases m)
  have "map_of (m # rs) k = Some fn" using m by simp
  with Cons.prems(2) obtain v where v: "fn source args context info = Returned v"
    by blast
  have k: "map_of rs k = None"
    using Cons.prems(1) m by (simp add: map_of_eq_None_iff)
  have "distinct (map fst rs)" using Cons.prems(1) by simp
  moreover have "\<forall>k' fn'. map_of rs k' = Some fn' \<longrightarrow>
      (\<exists>v. fn' source args context info = Returned v)"
  proof (intro allI impI)
    fix k' fn'
    assume a: "map_of rs k' = Some fn'"
    with k have "k' \<noteq> k" by auto
    with a m have "map_of (m # rs) k' = Some fn'" by simp
    with Cons.prems(2) show "\<exists>v. fn' source args context info = Returned v" by blast
  qed
  ultimately obtain newArgs' where
    run: "runMappers rs source args context info (setProp k v newArgs) = Returned newArgs'"
    and look: "\<forall>k'. k' \<noteq> ''__proto__'' \<longrightarrow> map_of newArgs' k' =
              (case map_of rs k' of
                 Some fn \<Rightarrow> (case fn source args context info of
                               Returned v \<Rightarrow> Some v | Threw e \<Rightarrow> None)
               | None \<Rightarrow> map_of (setProp k v newArgs) k')"
    using Cons.IH [of "setProp k v newArgs"] by blast
  have "runMappers (m # rs) source args context info newArgs = Returned newArgs'"
    using m v run by simp
  moreover have "\<forall>k'. k' \<noteq> ''__proto__'' \<longrightarrow> map_of newArgs' k' =
              (case map_of (m # rs) k' of
                 Some fn \<Rightarrow> (case fn source args context info of
                               Returned v \<Rightarrow> Some v | Threw e \<Rightarrow> None)
               | None \<Rightarrow> map_of newArgs k')"
    using look m v k by (auto simp: map_of_setProp_other split: option.splits)
  ultimately show ?case by blast
qed

lemma relation_compiles:
  assumes "resolveRef (ro_resolver opts) = IsResolver resolver"
    and "\<not> truthy (ro_type opts)" and "\<not> truthy (ro_resolve opts)"
    and "distinct (map fst (or_empty (ro_prepareArgs opts)))"
  shows "\<exists>argsProto argsRuntime.
      relationWithResolverToFC opts fieldName this =
        Returned
          \<lparr>rf_type = r_type resolver,
           rf_description = js_or (ro_description opts) (r_description resolver),
           rf_deprecationReason = ro_deprecationReason opts,
           rf_args = filter (\<lambda>kv. case map_of (or_empty (ro_prepareArgs opts)) (fst kv) of
                                   None \<Rightarrow> True | Some v \<Rightarrow> v = MapperVal JUndefined)
                       (spread [] (r_args resolver)),
           rf_resolve = relationResolve (typeName this) fieldName argsProto argsRuntime
                          (catchErrorsOf opts) (r_resolve resolver),
           rf_projection = ro_projection opts\<rparr> \<and>
      distinct (map fst argsProto) \<and> distinct (map fst argsRuntime) \<and>
      (\<forall>k. k \<noteq> ''__proto__'' \<longrightarrow> map_of argsProto k =
         (case map_of (or_empty (ro_prepareArgs opts)) k of
            Some (MapperVal v) \<Rightarrow> (if v = JUndefined \<or> v = JNull then None else Some v)
          | _ \<Rightarrow> None)) \<and>
      (\<forall>k. map_of argsRuntime k =
         (case map_of (or_empty (ro_prepareArgs opts)) k of
            Some (MapperFn fn) \<Rightarrow> Some fn | _ \<Rightarrow> None))"
proof -
  let ?pa = "or_empty (ro_prepareArgs opts)"
  from prepare_loop [of "map fst ?pa" "[]" "[]" ?pa "spread [] (r_args resolver)"] assms(4)
  obtain c' p' r' where
    loop: "foldl (prepareArg ?pa) (spread [] (r_args resolver), [], []) (map fst ?pa) = (c', p', r')"
    and c': "c' = filter (\<lambda>kv. \<not> (fst kv \<in> set (map fst ?pa) \<and>
              (case map_of ?pa (fst kv) of None \<Rightarrow> False | Some v \<Rightarrow> v \<noteq> MapperVal JUndefined)))
              (spread [] (r_args resolver))"
    and d: "distinct (map fst p')" "distinct (map fst r')"
    and p': "\<forall>k. k \<noteq> ''__proto__'' \<longrightarrow> map_of p' k =
         (if k \<in> set (map fst ?pa)
          then (case map_of ?pa k of
                  Some (MapperVal v) \<Rightarrow> (if v = JUndefined \<or> v = JNull then map_of [] k else Some v)
                | _ \<Rightarrow> map_of [] k)
          else map_of [] k)"
    and r': "\<forall>k. map_of r' k =
         (if k \<in> set (map fst ?pa)
          then (case map_of ?pa k of Some (MapperFn fn) \<Rightarrow> Some fn | _ \<Rightarrow> map_of [] k)
          else map_of [] k)"
    by auto
  have dom: "\<And>k. k \<notin> set (map fst ?pa) \<Longrightarrow> map_of ?pa k = None"
    by (simp add: map_of_eq_None_iff)
  have c: "c' = filter (\<lambda>kv. case map_of ?pa (fst kv) of
                                   None \<Rightarrow> True | Some v \<Rightarrow> v = MapperVal JUndefined)
                       (spread [] (r_args resolver))"
    unfolding c' using dom by (intro filter_cong) (auto split: option.splits)
  have p: "\<forall>k. k \<noteq> ''__proto__'' \<longrightarrow> map_of p' k =
         (case map_of ?pa k of
            Some (MapperVal v) \<Rightarrow> (if v = JUndefined \<or> v = JNull then None else Some v)
          | _ \<Rightarrow> None)"
    using p' dom by (auto split: option.splits arg_map_val.splits)
  have r: "\<forall>k. map_of r' k =
         (case map_of ?pa k of Some (MapperFn fn) \<Rightarrow> Some fn | _ \<Rightarrow> None)"
    using r' dom by (auto split: option.splits arg_map_val.splits)
  have "relationWithResolverToFC opts fieldName this =
        Returned
          \<lparr>rf_type = r_type resolver,
           rf_description = js_or (ro_description opts) (r_description resolver),
           rf_deprecationReason = ro_deprecationReason opts,
           rf_args = c',
           rf_resolve = relationResolve (typeName this) fieldName p' r'
                          (catchErrorsOf opts) (r_resolve resolver),
           rf_projection = ro_projection opts\<rparr>"
    using assms(1,2,3) loop by (simp add: relationWithResolverToFC_def)
  with c d p r show ?thesis by blast
qed

lemma relation_call:
  assumes "distinct (map fst argsRuntime)"
    and "\<forall>k fn. map_of argsRuntime k = Some fn \<longrightarrow>
           (\<exists>v. fn source args context info = Returned v)"
  shows "\<exists>newArgs.
      relationResolve tname fieldName argsProto argsRuntime catchErrors d source args context info =
        returnPayload tname fieldName catchErrors (callDelegate d source newArgs context info) \<and>
      (\<forall>k. k \<noteq> ''__proto__'' \<longrightarrow> map_of newArgs k =
         (case map_of argsRuntime k of
            Some fn \<Rightarrow> (case fn source args context info of
                          Returned v \<Rightarrow> Some v | Threw e \<Rightarrow> None)
          | None \<Rightarrow> map_of (spread args argsProto) k))"
proof -
  from runMappers_returns [OF assms, of "spread args argsProto"] obtain newArgs where
    "runMappers argsRuntime source args context info (spread args argsProto) = Returned newArgs"
    "\<forall>k. k \<noteq> ''__proto__'' \<longrightarrow> map_of newArgs k =
         (case map_of argsRuntime k of
            Some fn \<Rightarrow> (case fn source args context info of
                          Returned v \<Rightarrow> Some v | Threw e \<Rightarrow> None)
          | None \<Rightarrow> map_of (spread args argsProto) k)"
    by blast
  then show ?thesis
    by (intro exI [of _ newArgs]) (simp add: relationResolve_def)
qed

lemma map_of_filter_fst:
  "map_of (filter (\<lambda>kv. P (fst kv)) xs) k = (if P k then map_of xs k else None)"
  by (induction xs) auto

lemma example_compiled:
  "relationWithResolverToFC (relationTo d ce) ''user'' abcExample =
     Returned
       \<lparr>rf_type = NamedTC ''User'',
        rf_description = JStr ''Find a user'',
        rf_deprecationReason = JUndefined,
        rf_args = [],
        rf_resolve = relationResolve ''MyType'' ''user'' [(''limit'', JNum 10)]
                       [(''id'', \<lambda>source args context info. propertyOf source ''id'')]
                       (if ce = JUndefined then JBool True else ce) (Some d),
        rf_projection = JUndefined\<rparr>"
  by (simp add: relationWithResolverToFC_def relationTo_def exampleRelation_def
      exampleResolver_def examplePrepareArgs_def prepareArg_def or_empty_def spread_def
      assign_def setProp_def defineKey_def arrayIndex_def isDigit_def js_or_def
      catchErrorsOf_def abcExample_def AList.delete_eq)

lemma exampleRelation_relationTo: "exampleRelation = relationTo echoArgs JUndefined"
  by (simp add: relationTo_def exampleRelation_def exampleResolver_def)

subsection \<open>Arguments of a relation\<close>

text \<open>
  Claim C1.  For options with a \<open>Resolver\<close> and none of \<open>type\<close> and
  \<open>resolve\<close>, the relation compiles, and the arguments it exposes are the delegate's
  arguments without the keys of \<open>prepareArgs\<close> whose value is not \<open>undefined\<close>
  (a \<open>null\<close> value hides the argument and supplies nothing).  When the compiled
  \<open>resolve\<close> is called and the mapper functions return, it calls the delegate's
  resolve function with the caller's source, context and info and with arguments in which
  a key mapped to a function holds \<open>fn(source, args, context, info)\<close> for the
  caller's \<open>args\<close>, a key mapped to another value that is not \<open>null\<close>
  holds that value, and every other key is as the caller passed it; what the compiled
  \<open>resolve\<close> returns is made of the outcome of that call.  The objects are given by
  their enumerations, with distinct keys; the key \<open>__proto__\<close>, which is no name
  of a GraphQL argument, is left aside.  The witness is the example with the arguments
  \<open>id\<close> and \<open>limit\<close>.
\<close>

theorem relation_prepareArgs:
  assumes "resolveRef (ro_resolver opts) = IsResolver resolver"
    and "\<not> truthy (ro_type opts)" and "\<not> truthy (ro_resolve opts)"
    and "distinct (map fst (or_empty (ro_prepareArgs opts)))"
    and "enumerated (r_args resolver)"
    and "r_resolve resolver = Some delegate"
  shows "\<exists>fc. relationWithResolverToFC opts fieldName this = Returned fc \<and>
      map fst (rf_args fc) =
        filter (\<lambda>k. case map_of (or_empty (ro_prepareArgs opts)) k of
                       None \<Rightarrow> True | Some v \<Rightarrow> v = MapperVal JUndefined)
          (map fst (r_args resolver)) \<and>
      (\<forall>k. map_of (rf_args fc) k =
         (case map_of (or_empty (ro_prepareArgs opts)) k of
            None \<Rightarrow> map_of (r_args resolver) k
          | Some v \<Rightarrow> if v = MapperVal JUndefined then map_of (r_args resolver) k else None)) \<and>
      (\<forall>source args context info.
         distinct (map fst args) \<and>
         (\<forall>k fn. map_of (or_empty (ro_prepareArgs opts)) k = Some (MapperFn fn) \<longrightarrow>
                 (\<exists>v. fn source args context info = Returned v)) \<longrightarrow>
         (\<exists>newArgs.
            rf_resolve fc source args context info =
              returnPayload (typeName this) fieldName (catchErrorsOf opts)
                (delegate source newArgs context info) \<and>
            (\<forall>k. k \<noteq> ''__proto__'' \<longrightarrow> map_of newArgs k =
               (case map_of (or_empty (ro_prepareArgs opts)) k of
                  Some (MapperFn fn) \<Rightarrow>
                    (case fn source args context info of
                       Returned v \<Rightarrow> Some v | Threw e \<Rightarrow> None)
                | Some (MapperVal v) \<Rightarrow>
                    (if v = JUndefined \<or> v = JNull then map_of args k else Some v)
                | None \<Rightarrow> map_of args k))))"
proof -
  let ?pa = "or_empty (ro_prepareArgs opts)"
  let ?keep = "\<lambda>k. case map_of ?pa k of None \<Rightarrow> True | Some v \<Rightarrow> v = MapperVal JUndefined"
  from relation_compiles [OF assms(1-4), of fieldName this] obtain argsProto argsRuntime where
    fc: "relationWithResolverToFC opts fieldName this =
        Returned
          \<lparr>rf_type = r_type resolver,
           rf_description = js_or (ro_description opts) (r_description resolver),
           rf_deprecationReason = ro_deprecationReason opts,
           rf_args = filter (\<lambda>kv. ?keep (fst kv)) (spread [] (r_args resolver)),
           rf_resolve = relationResolve (typeName this) fieldName argsProto argsRuntime
                          (catchErrorsOf opts) (r_resolve resolver),
           rf_projection = ro_projection opts\<rparr>"
    and d: "distinct (map fst argsProto)" "distinct (map fst argsRuntime)"
    and p: "\<forall>k. k \<noteq> ''__proto__'' \<longrightarrow> map_of argsProto k =
         (case map_of ?pa k of
            Some (MapperVal v) \<Rightarrow> (if v = JUndefined \<or> v = JNull then None else Some v)
          | _ \<Rightarrow> None)"
    and r: "\<forall>k. map_of argsRuntime k =
         (case map_of ?pa k of Some (MapperFn fn) \<Rightarrow> Some fn | _ \<Rightarrow> None)"
    by blast
  let ?fc = "\<lparr>rf_type = r_type resolver,
           rf_description = js_or (ro_description opts) (r_description resolver),
           rf_deprecationReason = ro_deprecationReason opts,
           rf_args = filter (\<lambda>kv. ?keep (fst kv)) (spread [] (r_args resolver)),
           rf_resolve = relationResolve (typeName this) fieldName argsProto argsRuntime
                          (catchErrorsOf opts) (r_resolve resolver),
           rf_projection = ro_projection opts\<rparr>"
  have sp: "spread [] (r_args resolver) = r_args resolver"
    using assms(5) by (rule spread_enumerated)
  have keys: "map fst (rf_args ?fc) = filter ?keep (map fst (r_args resolver))"
    by (simp add: sp filter_map comp_def)
  have look: "\<forall>k. map_of (rf_args ?fc) k =
         (case map_of ?pa k of
            None \<Rightarrow> map_of (r_args resolver) k
          | Some v \<Rightarrow> if v = MapperVal JUndefined then map_of (r_args resolver) k else None)"
  proof
    fix k
    have "map_of (rf_args ?fc) k = map_of (filter (\<lambda>kv. ?keep (fst kv)) (r_args resolver)) k"
      by (simp add: sp)
    also have "\<dots> = (if ?keep k then map_of (r_args resolver) k else None)"
      by (rule map_of_filter_fst)
    finally have "map_of (rf_args ?fc) k =
        (if ?keep k then map_of (r_args resolver) k else None)" .
    then show "map_of (rf_args ?fc) k =
         (case map_of ?pa k of
            None \<Rightarrow> map_of (r_args resolver) k
          | Some v \<Rightarrow> if v = MapperVal JUndefined then map_of (r_args resolver) k else None)"
      by (cases "map_of ?pa k") (simp_all only: option.case if_True if_False split: if_splits)
  qed
  have call: "\<forall>source args context info.
         distinct (map fst args) \<and>
         (\<forall>k fn. map_of ?pa k = Some (MapperFn fn) \<longrightarrow>
                 (\<exists>v. fn source args context info = Returned v)) \<longrightarrow>
         (\<exists>newArgs.
            rf_resolve ?fc source args context info =
              returnPayload (typeName this) fieldName (catchErrorsOf opts)
                (delegate source newArgs context info) \<and>
            (\<forall>k. k \<noteq> ''__proto__'' \<longrightarrow> map_of newArgs k =
               (case map_of ?pa k of
                  Some (MapperFn fn) \<Rightarrow>
                    (case fn source args context info of
                       Returned v \<Rightarrow> Some v | Threw e \<Rightarrow> None)
                | Some (MapperVal v) \<Rightarrow>
                    (if v = JUndefined \<or> v = JNull then map_of args k else Some v)
                | None \<Rightarrow> map_of args k)))"
  proof (intro allI impI)
    fix source args ctx info
    assume a: "distinct (map fst args) \<and>
         (\<forall>k fn. map_of ?pa k = Some (MapperFn fn) \<longrightarrow>
                 (\<exists>v. fn source args ctx info = Returned v))"
    have m: "\<forall>k fn. map_of argsRuntime k = Some fn \<longrightarrow>
           (\<exists>v. fn source args ctx info = Returned v)"
    proof (intro allI impI)
      fix k fn
      assume "map_of argsRuntime k = Some fn"
      with r have "map_of ?pa k = Some (MapperFn fn)"
        by (auto split: option.splits arg_map_val.splits)
      with a show "\<exists>v. fn source args ctx info = Returned v" by blast
    qed
    from relation_call [OF d(2) m, of "typeName this" fieldName argsProto "catchErrorsOf opts"
        "r_resolve resolver"]
    obtain newArgs where
      eq: "relationResolve (typeName this) fieldName argsProto argsRuntime (catchErrorsOf opts)
             (r_resolve resolver) source args ctx info =
           returnPayload (typeName this) fieldName (catchErrorsOf opts)
             (callDelegate (r_resolve resolver) source newArgs ctx info)"
      and n: "\<forall>k. k \<noteq> ''__proto__'' \<longrightarrow> map_of newArgs k =
         (case map_of argsRuntime k of
            Some fn \<Rightarrow> (case fn source args ctx info of
                          Returned v \<Rightarrow> Some v | Threw e \<Rightarrow> None)
          | None \<Rightarrow> map_of (spread args argsProto) k)"
      by blast
    have dl: "callDelegate (r_resolve resolver) source newArgs ctx info =
        delegate source newArgs ctx info"
      by (simp add: callDelegate_def assms(6))
    have s: "\<And>k. map_of (spread args argsProto) k =
        (case map_of argsProto k of Some v \<Rightarrow> Some v | None \<Rightarrow> map_of args k)"
      using a d(1) by (simp add: map_of_spread)
    have "\<forall>k. k \<noteq> ''__proto__'' \<longrightarrow> map_of newArgs k =
               (case map_of ?pa k of
                  Some (MapperFn fn) \<Rightarrow>
                    (case fn source args ctx info of
                       Returned v \<Rightarrow> Some v | Threw e \<Rightarrow> None)
                | Some (MapperVal v) \<Rightarrow>
                    (if v = JUndefined \<or> v = JNull then map_of args k else Some v)
                | None \<Rightarrow> map_of args k)"
    proof (intro allI impI)
      fix k :: string
      assume k: "k \<noteq> ''__proto__''"
      show "map_of newArgs k =
               (case map_of ?pa k of
                  Some (MapperFn fn) \<Rightarrow>
                    (case fn source args ctx info of
                       Returned v \<Rightarrow> Some v | Threw e \<Rightarrow> None)
                | Some (MapperVal v) \<Rightarrow>
                    (if v = JUndefined \<or> v = JNull then map_of args k else Some v)
                | None \<Rightarrow> map_of args k)"
        using n [rule_format, OF k] p [rule_format, OF k] r [rule_format, of k]
        by (simp add: s split: option.splits arg_map_val.splits)
    qed
    with eq dl show "\<exists>newArgs.
            rf_resolve ?fc source args ctx info =
              returnPayload (typeName this) fieldName (catchErrorsOf opts)
                (delegate source newArgs ctx info) \<and>
            (\<forall>k. k \<noteq> ''__proto__'' \<longrightarrow> map_of newArgs k =
               (case map_of ?pa k of
                  Some (MapperFn fn) \<Rightarrow>
                    (case fn source args ctx info of
                       Returned v \<Rightarrow> Some v | Threw e \<Rightarrow> None)
                | Some (MapperVal v) \<Rightarrow>
                    (if v = JUndefined \<or> v = JNull then map_of args k else Some v)
                | None \<Rightarrow> map_of args k))"
      by (intro exI [of _ newArgs]) simp
  qed
  from fc keys look call show ?thesis
    by (intro exI [of _ ?fc]) (simp only: simp_thms)
qed

theorem relation_prepareArgs_witness:
  "returned (\<lambda>fc. map fst (rf_args fc))
     (relationWithResolverToFC exampleRelation ''user'' abcExample) = Returned [] \<and>
   (\<exists>newArgs.
      returned (\<lambda>fc. rf_resolve fc (JObj [(''id'', JStr ''x'')]) [] JUndefined JUndefined)
        (relationWithResolverToFC exampleRelation ''user'' abcExample) =
        Returned (returnPayload ''MyType'' ''user'' (JBool True)
                    (echoArgs (JObj [(''id'', JStr ''x'')]) newArgs JUndefined JUndefined)) \<and>
      map_of newArgs ''limit'' = Some (JNum 10) \<and>
      map_of newArgs ''id'' = Some (JStr ''x'') \<and>
      map_of newArgs ''other'' = None) \<and>
   returned (\<lambda>fc. rf_resolve fc (JObj [(''id'', JStr ''x'')]) [] JUndefined JUndefined)
     (relationWithResolverToFC exampleRelation ''user'' abcExample) =
     Returned (Returned (Promise (Fulfilled (JObj [(''limit'', JNum 10), (''id'', JStr ''x'')]))), [])"
proof -
  let ?src = "JObj [(''id'', JStr ''x'')]"
  have h: "resolveRef (ro_resolver exampleRelation) = IsResolver exampleResolver"
    "\<not> truthy (ro_type exampleRelation)" "\<not> truthy (ro_resolve exampleRelation)"
    "distinct (map fst (or_empty (ro_prepareArgs exampleRelation)))"
    "enumerated (r_args exampleResolver)"
    "r_resolve exampleResolver = Some echoArgs"
    by (simp_all add: exampleRelation_def exampleResolver_def examplePrepareArgs_def or_empty_def
        enumerated_def assign_def defineKey_def arrayIndex_def isDigit_def)
  have pa: "or_empty (ro_prepareArgs exampleRelation) = examplePrepareArgs"
    by (simp add: exampleRelation_def or_empty_def)
  have n: "typeName abcExample = ''MyType''" by (simp add: abcExample_def)
  have ce: "catchErrorsOf exampleRelation = JBool True"
    by (simp add: catchErrorsOf_def exampleRelation_def)
  have ra: "map fst (r_args exampleResolver) = [''id'', ''limit'']"
    by (simp add: exampleResolver_def)
  from relation_prepareArgs [OF h, of "''user''" abcExample] obtain fc where
    fc: "relationWithResolverToFC exampleRelation ''user'' abcExample = Returned fc"
    and keys: "map fst (rf_args fc) =
        filter (\<lambda>k. case map_of (or_empty (ro_prepareArgs exampleRelation)) k of
                       None \<Rightarrow> True | Some v \<Rightarrow> v = MapperVal JUndefined)
          (map fst (r_args exampleResolver))"
    and call: "\<forall>source args context info.
         distinct (map fst args) \<and>
         (\<forall>k fn. map_of (or_empty (ro_prepareArgs exampleRelation)) k = Some (MapperFn fn) \<longrightarrow>
                 (\<exists>v. fn source args context info = Returned v)) \<longrightarrow>
         (\<exists>newArgs.
            rf_resolve fc source args context info =
              returnPayload (typeName abcExample) ''user'' (catchErrorsOf exampleRelation)
                (echoArgs source newArgs context info) \<and>
            (\<forall>k. k \<noteq> ''__proto__'' \<longrightarrow> map_of newArgs k =
               (case map_of (or_empty (ro_prepareArgs exampleRelation)) k of
                  Some (MapperFn fn) \<Rightarrow>
                    (case fn source args context info of
                       Returned v \<Rightarrow> Some v | Threw e \<Rightarrow> None)
                | Some (MapperVal v) \<Rightarrow>
                    (if v = JUndefined \<or> v = JNull then map_of args k else Some v)
                | None \<Rightarrow> map_of args k)))"
    by blast
  from keys have "map fst (rf_args fc) = []"
    by (simp add: pa ra examplePrepareArgs_def)
  with fc have 1: "returned (\<lambda>fc. map fst (rf_args fc))
     (relationWithResolverToFC exampleRelation ''user'' abcExample) = Returned []"
    by (simp add: returned_def)
  have mp: "\<forall>k fn. map_of examplePrepareArgs k = Some (MapperFn fn) \<longrightarrow>
                 (\<exists>v. fn ?src [] JUndefined JUndefined = Returned v)"
    by (auto simp: examplePrepareArgs_def propertyOf_def split: if_splits)
  from call [rule_format, of "[]" ?src JUndefined JUndefined] mp obtain newArgs where
    res: "rf_resolve fc ?src [] JUndefined JUndefined =
              returnPayload ''MyType'' ''user'' (JBool True)
                (echoArgs ?src newArgs JUndefined JUndefined)"
    and args: "\<forall>k. k \<noteq> ''__proto__'' \<longrightarrow> map_of newArgs k =
               (case map_of examplePrepareArgs k of
                  Some (MapperFn fn) \<Rightarrow>
                    (case fn ?src [] JUndefined JUndefined of
                       Returned v \<Rightarrow> Some v | Threw e \<Rightarrow> None)
                | Some (MapperVal v) \<Rightarrow>
                    (if v = JUndefined \<or> v = JNull then map_of [] k else Some v)
                | None \<Rightarrow> map_of [] k)"
    by (auto simp: pa n ce)
  have l: "map_of newArgs ''limit'' = Some (JNum 10)"
    using args [rule_format, of "''limit''"] by (simp add: examplePrepareArgs_def)
  have i: "map_of newArgs ''id'' = Some (JStr ''x'')"
    using args [rule_format, of "''id''"] by (simp add: examplePrepareArgs_def propertyOf_def)
  have o: "map_of newArgs ''other'' = None"
    using args [rule_format, of "''other''"] by (simp add: examplePrepareArgs_def)
  from fc res l i o have 2: "\<exists>newArgs.
      returned (\<lambda>fc. rf_resolve fc ?src [] JUndefined JUndefined)
        (relationWithResolverToFC exampleRelation ''user'' abcExample) =
        Returned (returnPayload ''MyType'' ''user'' (JBool True)
                    (echoArgs ?src newArgs JUndefined JUndefined)) \<and>
      map_of newArgs ''limit'' = Some (JNum 10) \<and>
      map_of newArgs ''id'' = Some (JStr ''x'') \<and>
      map_of newArgs ''other'' = None"
    by (intro exI [of _ newArgs]) (simp add: returned_def)
  have 3: "returned (\<lambda>fc. rf_resolve fc ?src [] JUndefined JUndefined)
     (relationWithResolverToFC exampleRelation ''user'' abcExample) =
     Returned (Returned (Promise (Fulfilled (JObj [(''limit'', JNum 10), (''id'', JStr ''x'')]))), [])"
    by (simp add: exampleRelation_relationTo example_compiled returned_def relationResolve_def
        propertyOf_def spread_def assign_def setProp_def defineKey_def arrayIndex_def isDigit_def
        callDelegate_def returnPayload_def echoArgs_def)
  from 1 2 3 show ?thesis by simp
qed

subsection \<open>Type, description and deprecation reason of a relation\<close>

text \<open>
  Claim C7, as amended.  The compiled field has the delegate resolver's \<open>type\<close>; its
  description is that of the relation options when this is truthy and the resolver's
  otherwise; its deprecation reason is that of the relation options, whatever the
  resolver's own.
\<close>

theorem relation_descriptor:
  assumes "resolveRef (ro_resolver opts) = IsResolver resolver"
    and "\<not> truthy (ro_type opts)" and "\<not> truthy (ro_resolve opts)"
  shows "\<exists>fc. relationWithResolverToFC opts fieldName this = Returned fc \<and>
           rf_type fc = r_type resolver \<and>
           rf_description fc =
             (if truthy (ro_description opts) then ro_description opts
              else r_description resolver) \<and>
           rf_deprecationReason fc = ro_deprecationReason opts"
  using assms
  by (auto simp: relationWithResolverToFC_def js_or_def Let_def split: prod.splits)

theorem relation_descriptor_witness:
  "returned rf_type (relationWithResolverToFC exampleRelation ''user'' abcExample) =
     Returned (NamedTC ''User'') \<and>
   returned rf_description (relationWithResolverToFC exampleRelation ''user'' abcExample) =
     Returned (JStr ''Find a user'') \<and>
   returned rf_description
     (relationWithResolverToFC (exampleRelation\<lparr>ro_description := JStr ''The user''\<rparr>)
        ''user'' abcExample) = Returned (JStr ''The user'') \<and>
   returned rf_deprecationReason
     (relationWithResolverToFC (exampleRelation\<lparr>ro_deprecationReason := JStr ''old''\<rparr>)
        ''user'' abcExample) = Returned (JStr ''old'')"
proof -
  have a: "resolveRef (ro_resolver exampleRelation) = IsResolver exampleResolver"
    "\<not> truthy (ro_type exampleRelation)" "\<not> truthy (ro_resolve exampleRelation)"
    by (simp_all add: exampleRelation_def)
  have b: "resolveRef (ro_resolver (exampleRelation\<lparr>ro_description := JStr ''The user''\<rparr>)) =
       IsResolver exampleResolver"
    "\<not> truthy (ro_type (exampleRelation\<lparr>ro_description := JStr ''The user''\<rparr>))"
    "\<not> truthy (ro_resolve (exampleRelation\<lparr>ro_description := JStr ''The user''\<rparr>))"
    by (simp_all add: exampleRelation_def)
  have c: "resolveRef (ro_resolver (exampleRelation\<lparr>ro_deprecationReason := JStr ''old''\<rparr>)) =
       IsResolver exampleResolver"
    "\<not> truthy (ro_type (exampleRelation\<lparr>ro_deprecationReason := JStr ''old''\<rparr>))"
    "\<not> truthy (ro_resolve (exampleRelation\<lparr>ro_deprecationReason := JStr ''old''\<rparr>))"
    by (simp_all add: exampleRelation_def)
  have d: "ro_description exampleRelation = JUndefined"
    "r_description exampleResolver = JStr ''Find a user''"
    "r_type exampleResolver = NamedTC ''User''"
    by (simp_all add: exampleRelation_def exampleResolver_def)
  from relation_descriptor [OF a, of "''user''" abcExample] d
  have 1: "returned rf_type (relationWithResolverToFC exampleRelation ''user'' abcExample) =
     Returned (NamedTC ''User'') \<and>
   returned rf_description (relationWithResolverToFC exampleRelation ''user'' abcExample) =
     Returned (JStr ''Find a user'')"
    by (auto simp: returned_def)
  from relation_descriptor [OF b, of "''user''" abcExample]
  have 2: "returned rf_description
     (relationWithResolverToFC (exampleRelation\<lparr>ro_description := JStr ''The user''\<rparr>)
        ''user'' abcExample) = Returned (JStr ''The user'')"
    by (auto simp: returned_def)
  from relation_descriptor [OF c, of "''user''" abcExample]
  have 3: "returned rf_deprecationReason
     (relationWithResolverToFC (exampleRelation\<lparr>ro_deprecationReason := JStr ''old''\<rparr>)
        ''user'' abcExample) = Returned (JStr ''old'')"
    by (auto simp: returned_def)
  from 1 2 3 show ?thesis by simp
qed

theorem relation_descriptor_counterexample:
  "ro_deprecationReason exampleRelation = JUndefined \<and>
   resolveRef (ro_resolver exampleRelation) = IsResolver exampleResolver \<and>
   r_deprecationReason exampleResolver = JStr ''use findMany'' \<and>
   returned rf_deprecationReason (relationWithResolverToFC exampleRelation ''user'' abcExample) =
     Returned JUndefined"
  by (simp add: exampleRelation_relationTo example_compiled returned_def)
    (simp add: relationTo_def exampleRelation_def exampleResolver_def)

subsection \<open>Failures of the delegate\<close>

text \<open>
  The compiled \<open>resolve\<close> makes one call of the delegate's resolve function and
  returns by \<open>catchErrors\<close>, which counts as true when the options leave it
  undefined.  With \<open>catchErrors\<close> truthy, a delegate that returns a rejected
  promise gives a promise of \<open>null\<close>, and the console gets the header line and
  then the error, once; a value or a fulfilled promise gives a promise of that value and
  logs nothing.  With \<open>catchErrors\<close> falsy the outcome of the delegate is returned
  as it is.  The mapper functions of \<open>prepareArgs\<close> are taken to return.
\<close>

lemma relation_returns_by_catchErrors:
  assumes "resolveRef (ro_resolver opts) = IsResolver resolver"
    and "\<not> truthy (ro_type opts)" and "\<not> truthy (ro_resolve opts)"
    and "distinct (map fst (or_empty (ro_prepareArgs opts)))"
    and "r_resolve resolver = Some delegate"
    and "\<forall>k fn. map_of (or_empty (ro_prepareArgs opts)) k = Some (MapperFn fn) \<longrightarrow>
           (\<exists>v. fn source args context info = Returned v)"
  shows "\<exists>fc newArgs.
      relationWithResolverToFC opts fieldName this = Returned fc \<and>
      rf_resolve fc source args context info =
        returnPayload (typeName this) fieldName (catchErrorsOf opts)
          (delegate source newArgs context info) \<and>
      (ro_catchErrors opts = JUndefined \<longrightarrow> truthy (catchErrorsOf opts)) \<and>
      (ro_catchErrors opts \<noteq> JUndefined \<longrightarrow> catchErrorsOf opts = ro_catchErrors opts) \<and>
      (\<forall>e. truthy (catchErrorsOf opts) \<and>
            delegate source newArgs context info = Returned (Promise (Rejected e)) \<longrightarrow>
            rf_resolve fc source args context info =
              (Returned (Promise (Fulfilled JNull)),
               [LogString (''GQC ERROR: relation for '' @ typeName this @ ''.'' @ fieldName
                           @ '' throws error:''),
                LogError e])) \<and>
      (\<forall>v. truthy (catchErrorsOf opts) \<and>
            (delegate source newArgs context info = Returned (Promise (Fulfilled v)) \<or>
             delegate source newArgs context info = Returned (Value v)) \<longrightarrow>
            rf_resolve fc source args context info = (Returned (Promise (Fulfilled v)), [])) \<and>
      (\<not> truthy (catchErrorsOf opts) \<longrightarrow>
         rf_resolve fc source args context info = (delegate source newArgs context info, []))"
proof -
  from relation_compiles [OF assms(1-4), of fieldName this] obtain argsProto argsRuntime fc where
    fc: "relationWithResolverToFC opts fieldName this = Returned fc"
    and res: "rf_resolve fc = relationResolve (typeName this) fieldName argsProto argsRuntime
                          (catchErrorsOf opts) (r_resolve resolver)"
    and d: "distinct (map fst argsRuntime)"
    and r: "\<forall>k. map_of argsRuntime k =
         (case map_of (or_empty (ro_prepareArgs opts)) k of
            Some (MapperFn fn) \<Rightarrow> Some fn | _ \<Rightarrow> None)"
    by force
  have m: "\<forall>k fn. map_of argsRuntime k = Some fn \<longrightarrow>
           (\<exists>v. fn source args context info = Returned v)"
  proof (intro allI impI)
    fix k fn
    assume "map_of argsRuntime k = Some fn"
    with r have "map_of (or_empty (ro_prepareArgs opts)) k = Some (MapperFn fn)"
      by (auto split: option.splits arg_map_val.splits)
    with assms(6) show "\<exists>v. fn source args context info = Returned v" by blast
  qed
  from relation_call [OF d m, of "typeName this" fieldName argsProto "catchErrorsOf opts"
      "r_resolve resolver"]
  obtain newArgs where
    eq: "rf_resolve fc source args context info =
           returnPayload (typeName this) fieldName (catchErrorsOf opts)
             (delegate source newArgs context info)"
    by (auto simp: res assms(5) callDelegate_def)
  have c1: "ro_catchErrors opts = JUndefined \<longrightarrow> truthy (catchErrorsOf opts)"
    and c2: "ro_catchErrors opts \<noteq> JUndefined \<longrightarrow> catchErrorsOf opts = ro_catchErrors opts"
    by (simp_all add: catchErrorsOf_def)
  have rej: "\<forall>e. truthy (catchErrorsOf opts) \<and>
            delegate source newArgs context info = Returned (Promise (Rejected e)) \<longrightarrow>
            rf_resolve fc source args context info =
              (Returned (Promise (Fulfilled JNull)),
               [LogString (''GQC ERROR: relation for '' @ typeName this @ ''.'' @ fieldName
                           @ '' throws error:''),
                LogError e])"
    by (simp add: eq returnPayload_def)
  have ful: "\<forall>v. truthy (catchErrorsOf opts) \<and>
            (delegate source newArgs context info = Returned (Promise (Fulfilled v)) \<or>
             delegate source newArgs context info = Returned (Value v)) \<longrightarrow>
            rf_resolve fc source args context info = (Returned (Promise (Fulfilled v)), [])"
    by (auto simp: eq returnPayload_def)
  have off: "\<not> truthy (catchErrorsOf opts) \<longrightarrow>
         rf_resolve fc source args context info = (delegate source newArgs context info, [])"
    by (simp add: eq returnPayload_def split: outcome.splits)
  from fc eq c1 c2 rej ful off show ?thesis by blast
qed

lemma relation_rejecting_example:
  "returned (\<lambda>fc. rf_resolve fc (JObj [(''id'', JStr ''x'')]) [] JUndefined JUndefined)
     (relationWithResolverToFC (relationTo rejecting JUndefined) ''user'' abcExample) =
     Returned (Returned (Promise (Fulfilled JNull)),
               [LogString ''GQC ERROR: relation for MyType.user throws error:'',
                LogError (Error ''boom'')]) \<and>
   returned (\<lambda>fc. rf_resolve fc (JObj [(''id'', JStr ''x'')]) [] JUndefined JUndefined)
     (relationWithResolverToFC (relationTo rejecting (JBool False)) ''user'' abcExample) =
     Returned (Returned (Promise (Rejected (Error ''boom''))), [])"
proof -
  let ?src = "JObj [(''id'', JStr ''x'')]"
  have h: "\<And>ce. resolveRef (ro_resolver (relationTo rejecting ce)) =
               IsResolver (exampleResolver\<lparr>r_resolve := Some rejecting\<rparr>)"
    "\<And>ce. \<not> truthy (ro_type (relationTo rejecting ce))"
    "\<And>ce. \<not> truthy (ro_resolve (relationTo rejecting ce))"
    "\<And>ce. distinct (map fst (or_empty (ro_prepareArgs (relationTo rejecting ce))))"
    "r_resolve (exampleResolver\<lparr>r_resolve := Some rejecting\<rparr>) = Some rejecting"
    "\<And>ce. \<forall>k fn. map_of (or_empty (ro_prepareArgs (relationTo rejecting ce))) k = Some (MapperFn fn)
        \<longrightarrow> (\<exists>v. fn ?src [] JUndefined JUndefined = Returned v)"
    by (auto simp: relationTo_def exampleRelation_def examplePrepareArgs_def or_empty_def
        propertyOf_def split: if_splits)
  have n: "typeName abcExample = ''MyType''" by (simp add: abcExample_def)
  have ce: "ro_catchErrors (relationTo rejecting JUndefined) = JUndefined"
    "catchErrorsOf (relationTo rejecting (JBool False)) = JBool False"
    by (simp_all add: relationTo_def catchErrorsOf_def)
  from relation_returns_by_catchErrors [OF h(1,2,3,4,5,6), of JUndefined "''user''" abcExample]
  obtain fc newArgs where
    "relationWithResolverToFC (relationTo rejecting JUndefined) ''user'' abcExample = Returned fc"
    "truthy (catchErrorsOf (relationTo rejecting JUndefined))"
    "\<forall>e. truthy (catchErrorsOf (relationTo rejecting JUndefined)) \<and>
            rejecting ?src newArgs JUndefined JUndefined = Returned (Promise (Rejected e)) \<longrightarrow>
            rf_resolve fc ?src [] JUndefined JUndefined =
              (Returned (Promise (Fulfilled JNull)),
               [LogString (''GQC ERROR: relation for '' @ typeName abcExample @ ''.'' @ ''user''
                           @ '' throws error:''),
                LogError e])"
    using ce(1) by blast
  then have 1: "returned (\<lambda>fc. rf_resolve fc ?src [] JUndefined JUndefined)
     (relationWithResolverToFC (relationTo rejecting JUndefined) ''user'' abcExample) =
     Returned (Returned (Promise (Fulfilled JNull)),
               [LogString ''GQC ERROR: relation for MyType.user throws error:'',
                LogError (Error ''boom'')])"
    by (simp add: returned_def rejecting_def n)
  from relation_returns_by_catchErrors [OF h(1,2,3,4,5,6), of "JBool False" "''user''" abcExample]
  obtain fc' newArgs' where
    "relationWithResolverToFC (relationTo rejecting (JBool False)) ''user'' abcExample =
       Returned fc'"
    "\<not> truthy (catchErrorsOf (relationTo rejecting (JBool False))) \<longrightarrow>
         rf_resolve fc' ?src [] JUndefined JUndefined =
           (rejecting ?src newArgs' JUndefined JUndefined, [])"
    by blast
  then have 2: "returned (\<lambda>fc. rf_resolve fc ?src [] JUndefined JUndefined)
     (relationWithResolverToFC (relationTo rejecting (JBool False)) ''user'' abcExample) =
     Returned (Returned (Promise (Rejected (Error ''boom''))), [])"
    by (simp add: returned_def rejecting_def ce(2))
  from 1 2 show ?thesis by simp
qed

text \<open>
  Claim C2.  With \<open>catchErrors\<close> left undefined, which counts as true, a delegate
  whose resolve function throws makes the compiled \<open>resolve\<close> throw the same
  error: the call \<open>fieldConfig.resolve(source, newArgs, context, info)\<close> is made
  before \<open>Promise.resolve(payload).catch(...)\<close> and outside of it, so that no
  \<open>null\<close> is returned and nothing is logged.
\<close>

theorem relation_catchErrors_sync_throw:
  "catchErrorsOf (relationTo throwing JUndefined) = JBool True \<and>
   throwing (JObj [(''id'', JStr ''x'')]) [(''limit'', JNum 10), (''id'', JStr ''x'')]
     JUndefined JUndefined = Threw (Error ''boom'') \<and>
   returned (\<lambda>fc. rf_resolve fc (JObj [(''id'', JStr ''x'')]) [] JUndefined JUndefined)
     (relationWithResolverToFC (relationTo throwing JUndefined) ''user'' abcExample) =
     Returned (Threw (Error ''boom''), [])"
proof -
  have "catchErrorsOf (relationTo throwing JUndefined) = JBool True"
    by (simp add: catchErrorsOf_def relationTo_def)
  moreover have "throwing (JObj [(''id'', JStr ''x'')]) [(''limit'', JNum 10), (''id'', JStr ''x'')]
     JUndefined JUndefined = Threw (Error ''boom'')"
    by (simp add: throwing_def)
  moreover have "returned (\<lambda>fc. rf_resolve fc (JObj [(''id'', JStr ''x'')]) [] JUndefined JUndefined)
     (relationWithResolverToFC (relationTo throwing JUndefined) ''user'' abcExample) =
     Returned (Threw (Error ''boom''), [])"
    by (simp add: example_compiled returned_def relationResolve_def propertyOf_def spread_def
        assign_def setProp_def defineKey_def arrayIndex_def isDigit_def
        callDelegate_def returnPayload_def throwing_def)
  ultimately show ?thesis by simp
qed

end
